theory Spec2Isabelle
  imports Complex_Main
begin

section \<open>Data model of \<open>pygem/params/ffdparams.py\<close>\<close>

text \<open>
  The exceptions that the modelled code can raise.  A function that mutates the
  object in place returns an outcome together with the object as it is left when
  the function returns or raises.
\<close>

datatype error =
    ValueError | RuntimeError | IndexError | OverflowError
  | NoSectionError | NoOptionError | ParsingError
  | MissingSectionHeaderError | DuplicateSectionError | DuplicateOptionError

datatype outcome = Returned | Raised error

text \<open>
  A numpy array of three elements (\<open>box_length\<close>, \<open>n_control_points\<close>, ...) is a
  triple; \<open>v[axis]\<close> and \<open>v[axis] = x\<close> are \<open>vget\<close> and \<open>vset\<close> for an axis
  that is 0, 1 or 2.
\<close>

type_synonym 'a vec3 = "'a \<times> 'a \<times> 'a"

fun vget :: "'a vec3 \<Rightarrow> int \<Rightarrow> 'a" where
  "vget (x, y, z) axis = (if axis = 0 then x else if axis = 1 then y else z)"

fun vset :: "'a vec3 \<Rightarrow> int \<Rightarrow> 'a \<Rightarrow> 'a vec3" where
  "vset (x, y, z) axis v =
     (if axis = 0 then (v, y, z) else if axis = 1 then (x, v, z) else (x, y, v))"

text \<open>
  A three-dimensional numpy array of floats: its shape and its entries as nested
  lists, outermost axis first.  The shape is kept beside the entries because an
  array with an empty axis still has a shape.  Floats are idealised as reals;
  the operations that the reflection applies to them (negation, multiplication
  by 1 and by 2, comparison with zero) are exact on binary floating-point numbers.
\<close>

record ndarray =
  shape :: "nat vec3"
  elems :: "real list list list"

definition valid_arr :: "ndarray \<Rightarrow> bool" where
  "valid_arr a =
     (case shape a of (d0, d1, d2) \<Rightarrow>
        length (elems a) = d0 \<and>
        (\<forall>p \<in> set (elems a). length p = d1 \<and> (\<forall>r \<in> set p. length r = d2)))"

definition in_shape :: "nat vec3 \<Rightarrow> nat vec3 \<Rightarrow> bool" where
  "in_shape sh idx =
     (case sh of (d0, d1, d2) \<Rightarrow> case idx of (i, j, k) \<Rightarrow> i < d0 \<and> j < d1 \<and> k < d2)"

definition item :: "ndarray \<Rightarrow> nat vec3 \<Rightarrow> real" where
  "item a idx = (case idx of (i, j, k) \<Rightarrow> elems a ! i ! j ! k)"

text \<open>\<open>np.zeros(n)\<close> for a three-element integer array \<open>n\<close>.\<close>

definition np_zeros :: "int vec3 \<Rightarrow> error + ndarray" where
  "np_zeros n =
     (case n of (n0, n1, n2) \<Rightarrow>
        if n0 < 0 \<or> n1 < 0 \<or> n2 < 0 then Inl ValueError
        else Inr \<lparr>shape = (nat n0, nat n1, nat n2),
                  elems = replicate (nat n0) (replicate (nat n1) (replicate (nat n2) 0))\<rparr>)"

text \<open>\<open>np.flip(a, axis)\<close>.\<close>

definition np_flip :: "ndarray \<Rightarrow> int \<Rightarrow> ndarray" where
  "np_flip a axis =
     a\<lparr>elems := (if axis = 0 then rev (elems a)
                  else if axis = 1 then map rev (elems a)
                  else map (map rev) (elems a))\<rparr>"

text \<open>\<open>a[indeces]\<close> where \<open>indeces\<close> is \<open>[1:]\<close> on \<open>axis\<close> and \<open>[:]\<close> elsewhere.\<close>

definition slice_from1 :: "ndarray \<Rightarrow> int \<Rightarrow> ndarray" where
  "slice_from1 a axis =
     \<lparr>shape = vset (shape a) axis (vget (shape a) axis - 1),
      elems = (if axis = 0 then drop 1 (elems a)
               else if axis = 1 then map (drop 1) (elems a)
               else map (map (drop 1)) (elems a))\<rparr>"

text \<open>\<open>c * a\<close> for a float \<open>c\<close>.\<close>

definition np_scale :: "real \<Rightarrow> ndarray \<Rightarrow> ndarray" where
  "np_scale c a = a\<lparr>elems := map (map (map (\<lambda>v. c * v))) (elems a)\<rparr>"

text \<open>
  \<open>np.append(a, b, axis=axis)\<close>: the arrays are joined along \<open>axis\<close>; the other
  two dimensions have to agree.
\<close>

definition np_append :: "ndarray \<Rightarrow> ndarray \<Rightarrow> int \<Rightarrow> error + ndarray" where
  "np_append a b axis =
     (if vset (shape a) axis 0 \<noteq> vset (shape b) axis 0 then Inl ValueError
      else Inr \<lparr>shape = vset (shape a) axis (vget (shape a) axis + vget (shape b) axis),
                elems = (if axis = 0 then elems a @ elems b
                         else if axis = 1 then map2 (@) (elems a) (elems b)
                         else map2 (map2 (@)) (elems a) (elems b))\<rparr>)"

text \<open>
  \<open>a[-1, :, :]\<close>, \<open>a[:, -1, :]\<close> and \<open>a[:, :, -1]\<close>: the last slice along an axis.
  Index \<open>-1\<close> is out of bounds for an axis of size 0.
\<close>

definition last_slice :: "ndarray \<Rightarrow> int \<Rightarrow> error + real list list" where
  "last_slice a axis =
     (if vget (shape a) axis = 0 then Inl IndexError
      else Inr (if axis = 0 then last (elems a)
                else if axis = 1 then map last (elems a)
                else map (map last) (elems a)))"

definition count_nonzero :: "real list list \<Rightarrow> nat" where
  "count_nonzero xs = length (filter (\<lambda>v. v \<noteq> 0) (concat xs))"

text \<open>
  Arithmetic on the entries of \<open>n_control_points\<close>, a numpy array of 64-bit
  signed integers: results wrap around.
\<close>

definition wrap64 :: "int \<Rightarrow> int" where
  "wrap64 x = (x + 2 ^ 63) mod 2 ^ 64 - 2 ^ 63"

text \<open>The class \<open>FFDParameters\<close>.\<close>

record ffd_parameters =
  conversion_unit :: real
  box_length :: "real vec3"
  box_origin :: "real vec3"
  rot_angle :: "real vec3"
  n_control_points :: "int vec3"
  array_mu_x :: ndarray
  array_mu_y :: ndarray
  array_mu_z :: ndarray


text \<open>
  The invariant of the data model: every resolution is at least 1, the three
  weight arrays have the shape \<open>n_control_points\<close>, and the arrays are small enough
  to exist (a dimension of a numpy array is far below \<open>2 ^ 62\<close>).
\<close>

definition valid_store :: "ffd_parameters \<Rightarrow> bool" where
  "valid_store s =
     (case n_control_points s of (n0, n1, n2) \<Rightarrow>
        1 \<le> n0 \<and> n0 \<le> 2 ^ 62 \<and> 1 \<le> n1 \<and> n1 \<le> 2 ^ 62 \<and> 1 \<le> n2 \<and> n2 \<le> 2 ^ 62 \<and>
        valid_arr (array_mu_x s) \<and> shape (array_mu_x s) = (nat n0, nat n1, nat n2) \<and>
        valid_arr (array_mu_y s) \<and> shape (array_mu_y s) = (nat n0, nat n1, nat n2) \<and>
        valid_arr (array_mu_z s) \<and> shape (array_mu_z s) = (nat n0, nat n1, nat n2))"

section \<open>\<open>FFDParameters.reflect\<close>\<close>

text \<open>
  The test \<open>(axis == 0 and np.count_nonzero(self.array_mu_x[-1, :, :]) != 0) or ...\<close>:
  only the slice of the chosen axis's own array, \<open>array_mu s axis\<close>, is evaluated.
\<close>

definition array_mu :: "ffd_parameters \<Rightarrow> int \<Rightarrow> ndarray" where
  "array_mu s axis =
     (if axis = 0 then array_mu_x s else if axis = 1 then array_mu_y s else array_mu_z s)"

definition symmetry_plane_deformed :: "ffd_parameters \<Rightarrow> int \<Rightarrow> error + bool" where
  "symmetry_plane_deformed s axis =
     (case last_slice (array_mu s axis) axis of
        Inl e \<Rightarrow> Inl e
      | Inr face \<Rightarrow> Inr (count_nonzero face \<noteq> 0))"

text \<open>
  \<open>np.append(mu, reflection[c] * np.flip(mu, axis)[indeces], axis=axis)\<close>.
\<close>

definition reflected :: "ndarray \<Rightarrow> real \<Rightarrow> int \<Rightarrow> error + ndarray" where
  "reflected mu c axis = np_append mu (np_scale c (slice_from1 (np_flip mu axis) axis)) axis"

definition reflect :: "ffd_parameters \<Rightarrow> int \<Rightarrow> outcome \<times> ffd_parameters" where
  "reflect s axis =
     (if axis \<notin> {0, 1, 2} then (Raised ValueError, s)
      else case symmetry_plane_deformed s axis of
        Inl e \<Rightarrow> (Raised e, s)
      | Inr True \<Rightarrow> (Raised RuntimeError, s)
      | Inr False \<Rightarrow>
          let s1 = s\<lparr>n_control_points :=
                       vset (n_control_points s) axis
                         (wrap64 (2 * vget (n_control_points s) axis - 1))\<rparr>;
              s2 = s1\<lparr>box_length :=
                        vset (box_length s1) axis (vget (box_length s1) axis * 2)\<rparr>;
              reflection = vset (1, 1, 1) axis (- 1)
          in case reflected (array_mu_x s2) (vget reflection 0) axis of
               Inl e \<Rightarrow> (Raised e, s2)
             | Inr mx \<Rightarrow>
                 let s3 = s2\<lparr>array_mu_x := mx\<rparr> in
                 case reflected (array_mu_y s3) (vget reflection 1) axis of
                   Inl e \<Rightarrow> (Raised e, s3)
                 | Inr my \<Rightarrow>
                     let s4 = s3\<lparr>array_mu_y := my\<rparr> in
                     case reflected (array_mu_z s4) (vget reflection 2) axis of
                       Inl e \<Rightarrow> (Raised e, s4)
                     | Inr mz \<Rightarrow> (Returned, s4\<lparr>array_mu_z := mz\<rparr>))"

section \<open>The mappings \<open>psi_mapping\<close> and \<open>inv_psi_mapping\<close>\<close>



type_synonym 'a mat3 = "'a vec3 vec3"







text \<open>The product of two 3 x 3 matrices and of a matrix with a vector (\<open>np.dot\<close>).\<close>

definition dot3 :: "real vec3 \<Rightarrow> real vec3 \<Rightarrow> real" where
  "dot3 u v = (case u of (a, b, c) \<Rightarrow> case v of (x, y, z) \<Rightarrow> a * x + b * y + c * z)"

definition mat_vec :: "real mat3 \<Rightarrow> real vec3 \<Rightarrow> real vec3" where
  "mat_vec m v = (case m of (r0, r1, r2) \<Rightarrow> (dot3 r0 v, dot3 r1 v, dot3 r2 v))"

definition transpose3 :: "real mat3 \<Rightarrow> real mat3" where
  "transpose3 m =
     (case m of ((a, b, c), (d, e, f), (g, h, i)) \<Rightarrow> ((a, d, g), (b, e, h), (c, f, i)))"

definition mat_mul :: "real mat3 \<Rightarrow> real mat3 \<Rightarrow> real mat3" where
  "mat_mul m n =
     (case transpose3 n of (c0, c1, c2) \<Rightarrow>
        case m of (r0, r1, r2) \<Rightarrow>
          ((dot3 r0 c0, dot3 r0 c1, dot3 r0 c2),
           (dot3 r1 c0, dot3 r1 c1, dot3 r1 c2),
           (dot3 r2 c0, dot3 r2 c1, dot3 r2 c2)))"

definition identity3 :: "real mat3" where
  "identity3 = ((1, 0, 0), (0, 1, 0), (0, 0, 1))"


section \<open>Strings, integers and floats as text\<close>

text \<open>
  The string operations of Python that the file codec uses.  Strings are lists of
  characters; whitespace is the ASCII whitespace that \<open>str.strip\<close>, \<open>str.split\<close>
  and the regular expression \<open>\s\<close> recognise.
\<close>

definition nl :: char where
  "nl = CHR 0x0A"

definition is_space :: "char \<Rightarrow> bool" where
  "is_space c =
     (c = CHR '' '' \<or> c = CHR 0x09 \<or> c = CHR 0x0A \<or> c = CHR 0x0B \<or> c = CHR 0x0C \<or>
      c = CHR 0x0D \<or> c = CHR 0x1C \<or> c = CHR 0x1D \<or> c = CHR 0x1E \<or> c = CHR 0x1F)"

definition lstrip :: "string \<Rightarrow> string" where
  "lstrip s = dropWhile is_space s"

definition rstrip :: "string \<Rightarrow> string" where
  "rstrip s = rev (dropWhile is_space (rev s))"

definition strip :: "string \<Rightarrow> string" where
  "strip s = rstrip (lstrip s)"

text \<open>\<open>s.split(c)\<close> for a separator of one character.\<close>

fun split_on :: "char \<Rightarrow> string \<Rightarrow> string list" where
  "split_on c [] = [[]]"
| "split_on c (x # xs) =
     (if x = c then [] # split_on c xs
      else case split_on c xs of [] \<Rightarrow> [[x]] | w # ws \<Rightarrow> (x # w) # ws)"

text \<open>\<open>c.join(ls)\<close> for a separator of one character.\<close>

fun join_on :: "char \<Rightarrow> string list \<Rightarrow> string" where
  "join_on c [] = []"
| "join_on c [l] = l"
| "join_on c (l # m # ls) = l @ c # join_on c (m # ls)"

text \<open>\<open>s.split()\<close>: the maximal runs of characters that are not whitespace.\<close>

fun tokens :: "string \<Rightarrow> string \<Rightarrow> string list" where
  "tokens cur [] = (if cur = [] then [] else [rev cur])"
| "tokens cur (c # cs) =
     (if is_space c then (if cur = [] then tokens [] cs else rev cur # tokens [] cs)
      else tokens (c # cur) cs)"

definition py_split :: "string \<Rightarrow> string list" where
  "py_split s = tokens [] s"

text \<open>\<open>s.lower()\<close> on ASCII letters.\<close>

definition lower_char :: "char \<Rightarrow> char" where
  "lower_char c =
     (case map_of (zip ''ABCDEFGHIJKLMNOPQRSTUVWXYZ'' ''abcdefghijklmnopqrstuvwxyz'') c of
        None \<Rightarrow> c | Some d \<Rightarrow> d)"

definition lower :: "string \<Rightarrow> string" where
  "lower s = map lower_char s"

text \<open>\<open>str(n)\<close> for an integer: its decimal digits, with a minus sign when negative.\<close>

definition digit_char :: "nat \<Rightarrow> char" where
  "digit_char d = ''0123456789'' ! d"

function str_nat :: "nat \<Rightarrow> string" where
  "str_nat n = (if n < 10 then [digit_char n] else str_nat (n div 10) @ [digit_char (n mod 10)])"
  by pat_completeness auto
termination
  by (relation "measure id") auto

declare str_nat.simps [simp del]

definition str_int :: "int \<Rightarrow> string" where
  "str_int i = (if i < 0 then CHR ''-'' # str_nat (nat (- i)) else str_nat (nat i))"

text \<open>
  \<open>int(s)\<close> for a string: surrounding whitespace is ignored, a sign may come first,
  then decimal digits, where single underscores may stand between digits.  \<open>None\<close>
  is the \<open>ValueError\<close> of any other string.
\<close>

definition digit_val :: "char \<Rightarrow> nat option" where
  "digit_val c = map_of (zip ''0123456789'' [0 ..< 10]) c"

definition is_digit :: "char \<Rightarrow> bool" where
  "is_digit c = (digit_val c \<noteq> None)"

fun int_body :: "nat \<Rightarrow> string \<Rightarrow> nat option" where
  "int_body acc [] = Some acc"
| "int_body acc (c # cs) =
     (if c = CHR ''_'' then
        (case cs of [] \<Rightarrow> None
         | d # _ \<Rightarrow> if is_digit d then int_body acc cs else None)
      else case digit_val c of None \<Rightarrow> None | Some v \<Rightarrow> int_body (10 * acc + v) cs)"

definition unsigned_int :: "string \<Rightarrow> nat option" where
  "unsigned_int s =
     (case s of [] \<Rightarrow> None | c # _ \<Rightarrow> if is_digit c then int_body 0 s else None)"

definition py_int :: "string \<Rightarrow> int option" where
  "py_int s =
     (case strip s of
        [] \<Rightarrow> None
      | c # cs \<Rightarrow>
          if c = CHR ''-'' then map_option (\<lambda>n. - int n) (unsigned_int cs)
          else if c = CHR ''+'' then map_option int (unsigned_int cs)
          else map_option int (unsigned_int (c # cs)))"

text \<open>
  \<open>str(x)\<close> and \<open>float(s)\<close> for floats are the two builtins that the codec takes
  from Python and numpy; the model takes them as parameters.  \<open>None\<close> is the
  \<open>ValueError\<close> of \<open>float(s)\<close>.
\<close>

record float_io =
  str_float :: "real \<Rightarrow> string"
  py_float :: "string \<Rightarrow> real option"


section \<open>Reading a file with \<open>RawConfigParser\<close>\<close>

text \<open>
  \<open>read_parameters\<close> parses the file with \<open>configparser.RawConfigParser()\<close> of the
  Python standard library, with its default settings: \<open>=\<close> and \<open>:\<close> delimit a key
  from its value, \<open>#\<close> and \<open>;\<close> start a comment line, there are no inline
  comments, a value continues on the lines that are indented deeper than its key,
  empty lines may be part of a value, keys are lower-cased, and a section or an
  option that occurs twice is an error.  The definitions below follow the method
  \<open>RawConfigParser._read\<close> line by line.

  A file is read as its lines.  The line terminator is whitespace that the parser
  strips, so a line is kept without it.
\<close>

definition file_lines :: "string \<Rightarrow> string list" where
  "file_lines text = (let ls = split_on nl text in if last ls = [] then butlast ls else ls)"

text \<open>
  The state of the parser: the sections read so far with the lines of each value,
  the section \<open>DEFAULT\<close>, the section and the option that the current line may
  continue, the indentation of the last key or header, and whether a line that is
  neither was met (reported at the end as \<open>ParsingError\<close>).
\<close>

datatype cursor = NoSect | Default | Sect string

record parser =
  p_sections :: "string \<rightharpoonup> (string \<rightharpoonup> string list)"
  p_defaults :: "string \<rightharpoonup> string list"
  p_cursect :: cursor
  p_optname :: "string option"
  p_indent :: nat
  p_error :: bool

definition parser_init :: parser where
  "parser_init =
     \<lparr>p_sections = Map.empty, p_defaults = Map.empty, p_cursect = NoSect,
      p_optname = None, p_indent = 0, p_error = False\<rparr>"

text \<open>The dictionary \<open>cursect\<close> and an assignment to one of its keys.\<close>

definition cur_dict :: "parser \<Rightarrow> (string \<rightharpoonup> string list)" where
  "cur_dict p =
     (case p_cursect p of
        NoSect \<Rightarrow> Map.empty
      | Default \<Rightarrow> p_defaults p
      | Sect name \<Rightarrow> (case p_sections p name of None \<Rightarrow> Map.empty | Some d \<Rightarrow> d))"

definition cur_put :: "parser \<Rightarrow> string \<Rightarrow> string list \<Rightarrow> parser" where
  "cur_put p k v =
     (case p_cursect p of
        NoSect \<Rightarrow> p
      | Default \<Rightarrow> p\<lparr>p_defaults := (p_defaults p)(k \<mapsto> v)\<rparr>
      | Sect name \<Rightarrow> p\<lparr>p_sections := (p_sections p)(name \<mapsto> (cur_dict p)(k \<mapsto> v))\<rparr>)"

text \<open>
  The option that a continuation line or an empty line extends: \<open>cursect\<close> is not
  \<open>None\<close> and \<open>optname\<close> is a non-empty string.
\<close>

definition open_option :: "parser \<Rightarrow> (string \<times> string list) option" where
  "open_option p =
     (case p_optname p of
        None \<Rightarrow> None
      | Some k \<Rightarrow>
          if p_cursect p = NoSect \<or> k = [] then None
          else (case cur_dict p k of None \<Rightarrow> None | Some v \<Rightarrow> Some (k, v)))"

text \<open>\<open>line.strip().startswith(prefix)\<close> for one of the comment prefixes.\<close>

definition is_comment :: "string \<Rightarrow> bool" where
  "is_comment line =
     (case strip line of [] \<Rightarrow> False | c # _ \<Rightarrow> c = CHR ''#'' \<or> c = CHR '';'')"

text \<open>
  \<open>SECTCRE\<close>, \<open>\[(?P<header>.+)\]\<close> matched at the start of the line: the header
  is the text between the opening bracket and the last closing bracket.
\<close>

definition sect_header :: "string \<Rightarrow> string option" where
  "sect_header v =
     (case v of
        [] \<Rightarrow> None
      | c # cs \<Rightarrow>
          if c \<noteq> CHR ''['' \<or> CHR '']'' \<notin> set cs then None
          else let h = rev (tl (dropWhile (\<lambda>x. x \<noteq> CHR '']'') (rev cs)))
               in if h = [] then None else Some h)"

text \<open>
  \<open>OPTCRE\<close>, \<open>(?P<option>.*?)\s*(?P<vi>=|:)\s*(?P<value>.*)$\<close>: the line is
  split at its first delimiter; the option is what stands before it, without the
  whitespace in front of the delimiter.
\<close>

fun opt_split :: "string \<Rightarrow> string \<Rightarrow> (string \<times> string) option" where
  "opt_split acc [] = None"
| "opt_split acc (c # cs) =
     (if c = CHR ''='' \<or> c = CHR '':'' then Some (rstrip (rev acc), cs)
      else opt_split (c # acc) cs)"

definition opt_match :: "string \<Rightarrow> (string \<times> string) option" where
  "opt_match v = opt_split [] v"

text \<open>
  One line of the file.  In a parser that starts empty, the names in
  \<open>elements_added\<close> are the names of the sections and of their options read so far,
  so the tests for duplicates look the names up in the dictionaries.
\<close>

definition read_line :: "parser \<Rightarrow> string \<Rightarrow> error + parser" where
  "read_line p line =
     (let comment = is_comment line;
          v = (if comment then [] else strip line)
      in if v = [] then
           (case open_option p of
              Some (k, vs) \<Rightarrow> if comment then Inr p else Inr (cur_put p k (vs @ [[]]))
            | None \<Rightarrow> Inr p)
         else
           let cur_indent_level = length (takeWhile is_space line) in
           case (if cur_indent_level > p_indent p then open_option p else None) of
             Some (k, vs) \<Rightarrow> Inr (cur_put p k (vs @ [v]))
           | None \<Rightarrow>
               (let p = p\<lparr>p_indent := cur_indent_level\<rparr> in
                case sect_header v of
                  Some sectname \<Rightarrow>
                    if p_sections p sectname \<noteq> None then Inl DuplicateSectionError
                    else if sectname = ''DEFAULT''
                    then Inr (p\<lparr>p_cursect := Default, p_optname := None\<rparr>)
                    else Inr (p\<lparr>p_sections := (p_sections p)(sectname \<mapsto> Map.empty),
                                p_cursect := Sect sectname, p_optname := None\<rparr>)
                | None \<Rightarrow>
                    if p_cursect p = NoSect then Inl MissingSectionHeaderError
                    else
                      (case opt_match v of
                         None \<Rightarrow> Inr (p\<lparr>p_error := True\<rparr>)
                       | Some (option, optval) \<Rightarrow>
                           let p = (if option = [] then p\<lparr>p_error := True\<rparr> else p);
                               optname = lower (rstrip option)
                           in if cur_dict p optname \<noteq> None then Inl DuplicateOptionError
                              else Inr (cur_put (p\<lparr>p_optname := Some optname\<rparr>)
                                          optname [strip optval]))))"

fun read_lines :: "parser \<Rightarrow> string list \<Rightarrow> error + parser" where
  "read_lines p [] = Inr p"
| "read_lines p (line # rest) =
     (case read_line p line of Inl e \<Rightarrow> Inl e | Inr p' \<Rightarrow> read_lines p' rest)"

text \<open>
  The parsed file: every value is its lines joined by newlines, without trailing
  whitespace (\<open>_join_multiline_values\<close>).
\<close>

record config =
  c_sections :: "string \<rightharpoonup> (string \<rightharpoonup> string)"
  c_defaults :: "string \<rightharpoonup> string"

definition join_value :: "string list \<Rightarrow> string" where
  "join_value vs = rstrip (join_on nl vs)"

definition config_read :: "string \<Rightarrow> error + config" where
  "config_read text =
     (case read_lines parser_init (file_lines text) of
        Inl e \<Rightarrow> Inl e
      | Inr p \<Rightarrow>
          if p_error p then Inl ParsingError
          else Inr \<lparr>c_sections =
                      (\<lambda>name. map_option (\<lambda>d k. map_option join_value (d k))
                                 (p_sections p name)),
                    c_defaults = (\<lambda>k. map_option join_value (p_defaults p k))\<rparr>)"

text \<open>
  \<open>config.get(section, option)\<close>, \<open>config.getint\<close> and \<open>config.getfloat\<close>.  An
  option that the section does not have is looked up in the section \<open>DEFAULT\<close>.
\<close>

definition config_get :: "config \<Rightarrow> string \<Rightarrow> string \<Rightarrow> error + string" where
  "config_get c section option =
     (case c_sections c section of
        None \<Rightarrow>
          if section \<noteq> ''DEFAULT'' then Inl NoSectionError
          else (case c_defaults c (lower option) of
                  None \<Rightarrow> Inl NoOptionError | Some v \<Rightarrow> Inr v)
      | Some d \<Rightarrow>
          (case d (lower option) of
             Some v \<Rightarrow> Inr v
           | None \<Rightarrow>
               (case c_defaults c (lower option) of
                  None \<Rightarrow> Inl NoOptionError | Some v \<Rightarrow> Inr v)))"

definition config_getint :: "config \<Rightarrow> string \<Rightarrow> string \<Rightarrow> error + int" where
  "config_getint c section option =
     (case config_get c section option of
        Inl e \<Rightarrow> Inl e
      | Inr v \<Rightarrow> (case py_int v of None \<Rightarrow> Inl ValueError | Some n \<Rightarrow> Inr n))"

definition config_getfloat ::
  "float_io \<Rightarrow> config \<Rightarrow> string \<Rightarrow> string \<Rightarrow> error + real" where
  "config_getfloat fio c section option =
     (case config_get c section option of
        Inl e \<Rightarrow> Inl e
      | Inr v \<Rightarrow> (case py_float fio v of None \<Rightarrow> Inl ValueError | Some x \<Rightarrow> Inr x))"


section \<open>\<open>FFDParameters.write_parameters\<close> and \<open>FFDParameters.read_parameters\<close>\<close>

text \<open>
  The files that exist, each with its text.  \<open>os.path.isfile(filename)\<close> holds when
  the file system has the name; writing a file sets its text.  The argument
  \<open>filename\<close> is a string, so the \<open>TypeError\<close> of the two methods cannot occur.
\<close>

type_synonym filesystem = "string \<rightharpoonup> string"

text \<open>
  The text that \<open>write_parameters\<close> builds in \<open>output_string\<close>, in the order of the
  source: the text before the loop over the weights along x, and the texts between
  the loops.
\<close>

definition text_before_x :: "float_io \<Rightarrow> ffd_parameters \<Rightarrow> string" where
  "text_before_x fio s =
     ''\<newline>[Box info]\<newline>'' @
     ''# This section collects all the properties of the'' @
     '' FFD bounding box.\<newline>'' @
     ''\<newline># n control points indicates the number of control'' @
     '' points in each direction (x, y, z).\<newline>'' @
     ''# For example, to create a 2 x 3 x 2 grid, use the'' @
     '' following: n control points: 2, 3, 2\<newline>'' @
     ''n control points x: '' @ str_int (vget (n_control_points s) 0) @ ''\<newline>'' @
     ''n control points y: '' @ str_int (vget (n_control_points s) 1) @ ''\<newline>'' @
     ''n control points z: '' @ str_int (vget (n_control_points s) 2) @ ''\<newline>'' @
     ''\<newline># box length indicates the length of the FFD '' @
     ''bounding box along the three canonical directions '' @
     ''(x, y, z).\<newline>'' @
     ''# It uses the local coordinate system.\<newline>'' @
     ''# For example to create a 2 x 1.5 x 3 meters box '' @
     ''use the following: box length: 2.0, 1.5, 3.0\<newline>'' @
     ''box length x: '' @ str_float fio (vget (box_length s) 0) @ ''\<newline>'' @
     ''box length y: '' @ str_float fio (vget (box_length s) 1) @ ''\<newline>'' @
     ''box length z: '' @ str_float fio (vget (box_length s) 2) @ ''\<newline>'' @
     ''\<newline># box origin indicates the x, y, and z coordinates '' @
     ''of the origin of the FFD bounding box. That is '' @
     ''center of\<newline>'' @
     ''# rotation of the bounding box. It corresponds to '' @
     ''the point coordinates with position [0][0][0].\<newline>'' @
     ''# See section '' @ [CHR 0x22] @ ''Parameters weights'' @ [CHR 0x22] @ '' for more '' @
     ''details.\<newline>'' @
     ''# For example, if the origin is equal to 0., 0., 0., '' @
     ''use the following: box origin: 0., 0., 0.\<newline>'' @
     ''box origin x: '' @ str_float fio (vget (box_origin s) 0) @ ''\<newline>'' @
     ''box origin y: '' @ str_float fio (vget (box_origin s) 1) @ ''\<newline>'' @
     ''box origin z: '' @ str_float fio (vget (box_origin s) 2) @ ''\<newline>'' @
     ''\<newline># rotation angle indicates the rotation angle '' @
     ''around the x, y, and z axis of the FFD bounding box '' @
     ''in degrees.\<newline>'' @
     ''# The rotation is done with respect to the box '' @
     ''origin.\<newline>'' @
     ''# For example, to rotate the box by 2 deg along '' @
     ''the z '' @
     ''direction, use the following: rotation angle: '' @
     ''0., 0., 2.\<newline>'' @
     ''rotation angle x: '' @ str_float fio (vget (rot_angle s) 0) @ ''\<newline>'' @
     ''rotation angle y: '' @ str_float fio (vget (rot_angle s) 1) @ ''\<newline>'' @
     ''rotation angle z: '' @ str_float fio (vget (rot_angle s) 2) @ ''\<newline>'' @
     ''\<newline>\<newline>[Parameters weights]\<newline>'' @
     ''# This section describes the weights of the FFD '' @
     ''control points.\<newline>'' @
     ''# We adopt the following convention:\<newline>'' @
     ''# For example with a 2x2x2 grid of control points we '' @
     ''have to fill a 2x2x2 matrix of weights.\<newline>'' @
     ''# If a weight is equal to zero you can discard the '' @
     ''line since the default is zero.\<newline>'' @
     ''#\<newline>'' @
     ''# | x index | y index | z index | weight |\<newline>'' @
     ''#  --------------------------------------\<newline>'' @
     ''# |    0    |    0    |    0    |  1.0   |\<newline>'' @
     ''# |    0    |    1    |    1    |  0.0   | --> you '' @
     ''can erase this line without effects\<newline>'' @
     ''# |    0    |    1    |    0    | -2.1   |\<newline>'' @
     ''# |    0    |    0    |    1    |  3.4   |\<newline>'' @
     ''\<newline># parameter x collects the displacements along x, '' @
     ''normalized with the box length x.'' @
     ''\<newline>parameter x:''"

definition text_before_y :: "string" where
  "text_before_y =
     ''\<newline># parameter y collects the displacements along y, '' @
     ''normalized with the box length y.'' @
     ''\<newline>parameter y:''"

definition text_before_z :: "string" where
  "text_before_z =
     ''\<newline># parameter z collects the displacements along z, '' @
     ''normalized with the box length z.'' @
     ''\<newline>parameter z:''"

text \<open>\<open>mu[i][j][k]\<close> for indices that are not negative.\<close>

definition getitem3 :: "ndarray \<Rightarrow> nat vec3 \<Rightarrow> error + real" where
  "getitem3 mu idx = (if in_shape (shape mu) idx then Inr (item mu idx) else Inl IndexError)"

text \<open>
  The indices that the three nested loops \<open>for i in range(0, n[0])\<close>,
  \<open>for j in range(0, n[1])\<close>, \<open>for k in range(0, n[2])\<close> visit, in their order.
\<close>

definition grid_indices :: "int vec3 \<Rightarrow> nat vec3 list" where
  "grid_indices n =
     (case n of (n0, n1, n2) \<Rightarrow>
        concat (map (\<lambda>i. concat (map (\<lambda>j. map (\<lambda>k. (i, j, k)) [0 ..< nat n2]) [0 ..< nat n1]))
                  [0 ..< nat n0]))"

text \<open>The line that the body of the loops appends for one index.\<close>

definition weight_line :: "float_io \<Rightarrow> nat \<Rightarrow> nat vec3 \<Rightarrow> real \<Rightarrow> string" where
  "weight_line fio offset idx w =
     (case idx of (i, j, k) \<Rightarrow>
        replicate offset (CHR '' '') @ str_int (int i) @ ''   '' @ str_int (int j) @ ''   '' @
        str_int (int k) @ ''   '' @ str_float fio w @ ''\<newline>'')"

text \<open>
  The loops over one weight array: the state is \<open>output_string\<close> and \<open>offset\<close>.
  Reading an entry that the array does not have raises \<open>IndexError\<close>.
\<close>

fun write_weights ::
  "float_io \<Rightarrow> ndarray \<Rightarrow> nat vec3 list \<Rightarrow> string \<times> nat \<Rightarrow> error + string \<times> nat" where
  "write_weights fio mu [] st = Inr st"
| "write_weights fio mu (idx # rest) (output_string, offset) =
     (case getitem3 mu idx of
        Inl e \<Rightarrow> Inl e
      | Inr w \<Rightarrow> write_weights fio mu rest (output_string @ weight_line fio offset idx w, 13))"

definition output_text :: "float_io \<Rightarrow> ffd_parameters \<Rightarrow> error + string" where
  "output_text fio s =
     (let idxs = grid_indices (n_control_points s) in
      case write_weights fio (array_mu_x s) idxs (text_before_x fio s, 1) of
        Inl e \<Rightarrow> Inl e
      | Inr (out_x, _) \<Rightarrow>
          (case write_weights fio (array_mu_y s) idxs (out_x @ text_before_y, 1) of
             Inl e \<Rightarrow> Inl e
           | Inr (out_y, _) \<Rightarrow>
               (case write_weights fio (array_mu_z s) idxs (out_y @ text_before_z, 1) of
                  Inl e \<Rightarrow> Inl e
                | Inr (out_z, _) \<Rightarrow> Inr out_z)))"

definition write_parameters ::
  "float_io \<Rightarrow> filesystem \<Rightarrow> ffd_parameters \<Rightarrow> string \<Rightarrow> outcome \<times> filesystem" where
  "write_parameters fio fs s filename =
     (case output_text fio s of
        Inl e \<Rightarrow> (Raised e, fs)
      | Inr output_string \<Rightarrow> (Returned, fs(filename \<mapsto> output_string)))"

text \<open>
  \<open>mu[(i, j, k)] = w\<close> for integers: an index from \<open>-d\<close> to \<open>-1\<close> counts from the
  end of its axis, an index outside \<open>-d .. d - 1\<close> raises \<open>IndexError\<close>.
\<close>

definition norm_index :: "nat \<Rightarrow> int \<Rightarrow> nat option" where
  "norm_index d i =
     (if 0 \<le> i \<and> i < int d then Some (nat i)
      else if - int d \<le> i \<and> i < 0 then Some (nat (i + int d))
      else None)"

definition norm_index3 :: "nat vec3 \<Rightarrow> int vec3 \<Rightarrow> nat vec3 option" where
  "norm_index3 sh idx =
     (case sh of (d0, d1, d2) \<Rightarrow> case idx of (i, j, k) \<Rightarrow>
        case (norm_index d0 i, norm_index d1 j, norm_index d2 k) of
          (Some i', Some j', Some k') \<Rightarrow> Some (i', j', k')
        | _ \<Rightarrow> None)"

definition setitem3 :: "ndarray \<Rightarrow> int vec3 \<Rightarrow> real \<Rightarrow> error + ndarray" where
  "setitem3 mu idx w =
     (case norm_index3 (shape mu) idx of
        None \<Rightarrow> Inl IndexError
      | Some (i, j, k) \<Rightarrow>
          Inr (mu\<lparr>elems := (elems mu)[i := (elems mu ! i)[j := (elems mu ! i ! j)[k := w]]]\<rparr>))"

text \<open>
  The body of the loops over the lines of a weight section:
  \<open>values = line.split()\<close> and \<open>mu[tuple(map(int, values[0:3]))] = float(values[3])\<close>.
  The right-hand side is evaluated first.
\<close>

definition read_weight_line :: "float_io \<Rightarrow> ndarray \<Rightarrow> string \<Rightarrow> error + ndarray" where
  "read_weight_line fio mu line =
     (let values = py_split line in
      if length values < 4 then Inl IndexError
      else case py_float fio (values ! 3) of
        None \<Rightarrow> Inl ValueError
      | Some w \<Rightarrow>
          (case (py_int (values ! 0), py_int (values ! 1), py_int (values ! 2)) of
             (Some i, Some j, Some k) \<Rightarrow> setitem3 mu (i, j, k) w
           | _ \<Rightarrow> Inl ValueError))"

fun read_weights :: "float_io \<Rightarrow> ndarray \<Rightarrow> string list \<Rightarrow> outcome \<times> ndarray" where
  "read_weights fio mu [] = (Returned, mu)"
| "read_weights fio mu (line # rest) =
     (case read_weight_line fio mu line of
        Inl e \<Rightarrow> (Raised e, mu)
      | Inr mu' \<Rightarrow> read_weights fio mu' rest)"

text \<open>
  A statement that may raise: when it does, the method stops with the object as it
  is at that point.
\<close>

definition attempt ::
  "error + 'a \<Rightarrow> ffd_parameters \<Rightarrow> ('a \<Rightarrow> outcome \<times> ffd_parameters) \<Rightarrow>
   outcome \<times> ffd_parameters" where
  "attempt r s k = (case r of Inl e \<Rightarrow> (Raised e, s) | Inr v \<Rightarrow> k v)"

text \<open>An integer stored in \<open>n_control_points\<close> has to fit 64 bits.\<close>

definition getint64 :: "config \<Rightarrow> string \<Rightarrow> string \<Rightarrow> error + int" where
  "getint64 c section option =
     (case config_getint c section option of
        Inl e \<Rightarrow> Inl e
      | Inr v \<Rightarrow> if - (2 ^ 63) \<le> v \<and> v < 2 ^ 63 then Inr v else Inl OverflowError)"

text \<open>The part of \<open>read_parameters\<close> that reads the text of an existing file.\<close>

definition read_weights_into ::
  "float_io \<Rightarrow> int \<Rightarrow> string \<Rightarrow> ffd_parameters \<Rightarrow> outcome \<times> ffd_parameters" where
  "read_weights_into fio axis mu_text s =
     (case read_weights fio (array_mu s axis) (split_on nl mu_text) of
        (r, a) \<Rightarrow>
          (r, if axis = 0 then s\<lparr>array_mu_x := a\<rparr>
              else if axis = 1 then s\<lparr>array_mu_y := a\<rparr> else s\<lparr>array_mu_z := a\<rparr>))"

definition read_text :: "float_io \<Rightarrow> ffd_parameters \<Rightarrow> string \<Rightarrow> outcome \<times> ffd_parameters" where
  "read_text fio s0 text =
     attempt (config_read text) s0 (\<lambda>config.
     attempt (getint64 config ''Box info'' ''n control points x'') s0 (\<lambda>v.
     let s1 = s0\<lparr>n_control_points := vset (n_control_points s0) 0 v\<rparr> in
     attempt (getint64 config ''Box info'' ''n control points y'') s1 (\<lambda>v.
     let s2 = s1\<lparr>n_control_points := vset (n_control_points s1) 1 v\<rparr> in
     attempt (getint64 config ''Box info'' ''n control points z'') s2 (\<lambda>v.
     let s3 = s2\<lparr>n_control_points := vset (n_control_points s2) 2 v\<rparr> in
     attempt (config_getfloat fio config ''Box info'' ''box length x'') s3 (\<lambda>v.
     let s4 = s3\<lparr>box_length := vset (box_length s3) 0 v\<rparr> in
     attempt (config_getfloat fio config ''Box info'' ''box length y'') s4 (\<lambda>v.
     let s5 = s4\<lparr>box_length := vset (box_length s4) 1 v\<rparr> in
     attempt (config_getfloat fio config ''Box info'' ''box length z'') s5 (\<lambda>v.
     let s6 = s5\<lparr>box_length := vset (box_length s5) 2 v\<rparr> in
     attempt (config_getfloat fio config ''Box info'' ''box origin x'') s6 (\<lambda>v.
     let s7 = s6\<lparr>box_origin := vset (box_origin s6) 0 v\<rparr> in
     attempt (config_getfloat fio config ''Box info'' ''box origin y'') s7 (\<lambda>v.
     let s8 = s7\<lparr>box_origin := vset (box_origin s7) 1 v\<rparr> in
     attempt (config_getfloat fio config ''Box info'' ''box origin z'') s8 (\<lambda>v.
     let s9 = s8\<lparr>box_origin := vset (box_origin s8) 2 v\<rparr> in
     attempt (config_getfloat fio config ''Box info'' ''rotation angle x'') s9 (\<lambda>v.
     let s10 = s9\<lparr>rot_angle := vset (rot_angle s9) 0 v\<rparr> in
     attempt (config_getfloat fio config ''Box info'' ''rotation angle y'') s10 (\<lambda>v.
     let s11 = s10\<lparr>rot_angle := vset (rot_angle s10) 1 v\<rparr> in
     attempt (config_getfloat fio config ''Box info'' ''rotation angle z'') s11 (\<lambda>v.
     let s12 = s11\<lparr>rot_angle := vset (rot_angle s11) 2 v\<rparr> in
     attempt (np_zeros (n_control_points s12)) s12 (\<lambda>z.
     let s13 = s12\<lparr>array_mu_x := z\<rparr> in
     attempt (np_zeros (n_control_points s13)) s13 (\<lambda>z.
     let s14 = s13\<lparr>array_mu_y := z\<rparr> in
     attempt (np_zeros (n_control_points s14)) s14 (\<lambda>z.
     let s15 = s14\<lparr>array_mu_z := z\<rparr> in
     attempt (config_get config ''Parameters weights'' ''parameter x'') s15 (\<lambda>mux.
     attempt (config_get config ''Parameters weights'' ''parameter y'') s15 (\<lambda>muy.
     attempt (config_get config ''Parameters weights'' ''parameter z'') s15 (\<lambda>muz.
     case read_weights_into fio 0 mux s15 of
       (Raised e, s16) \<Rightarrow> (Raised e, s16)
     | (Returned, s16) \<Rightarrow>
         (case read_weights_into fio 1 muy s16 of
            (Raised e, s17) \<Rightarrow> (Raised e, s17)
          | (Returned, s17) \<Rightarrow> read_weights_into fio 2 muz s17))))))))))))))))))))"

text \<open>
  \<open>read_parameters\<close>: a name that is not a file makes the method write the object
  to that name and return; an existing file is read into the object.
\<close>

definition read_parameters ::
  "float_io \<Rightarrow> filesystem \<Rightarrow> ffd_parameters \<Rightarrow> string \<Rightarrow>
   outcome \<times> ffd_parameters \<times> filesystem" where
  "read_parameters fio fs s filename =
     (case fs filename of
        None \<Rightarrow> (case write_parameters fio fs s filename of (r, fs') \<Rightarrow> (r, s, fs'))
      | Some text \<Rightarrow> (case read_text fio s text of (r, s') \<Rightarrow> (r, s', fs)))"


section \<open>\<open>FFDParameters.rotation_matrix\<close> and \<open>FFDParameters.save_points\<close>\<close>

text \<open>
  Modelled from the spec: the rotations that \<open>pygem.affine.angles2matrix\<close> composes.
  That function is not among the sources; the spec names the rotations \<open>Rx\<close>, \<open>Ry\<close>
  and \<open>Rz\<close> about the three axes, here the usual matrices of these rotations.
\<close>

definition rot_x :: "real \<Rightarrow> real mat3" where
  "rot_x a = ((1, 0, 0), (0, cos a, - sin a), (0, sin a, cos a))"

definition rot_y :: "real \<Rightarrow> real mat3" where
  "rot_y a = ((cos a, 0, sin a), (0, 1, 0), (- sin a, 0, cos a))"

definition rot_z :: "real \<Rightarrow> real mat3" where
  "rot_z a = ((cos a, - sin a, 0), (sin a, cos a, 0), (0, 0, 1))"

text \<open>
  Modelled from the spec: \<open>pygem.affine.angles2matrix\<close>, which the property
  \<open>rotation_matrix\<close> calls and which is not among the sources.  The spec gives it
  as the composition \<open>R = Rz(angle.z) . Ry(angle.y) . Rx(angle.x)\<close>, the rotation
  about z outermost.
\<close>

definition angles2matrix :: "real \<Rightarrow> real \<Rightarrow> real \<Rightarrow> real mat3" where
  "angles2matrix z y x = mat_mul (rot_z z) (mat_mul (rot_y y) (rot_x x))"

text \<open>\<open>np.radians\<close> and the property \<open>rotation_matrix\<close>.\<close>

definition radians :: "real \<Rightarrow> real" where
  "radians d = d * pi / 180"

definition rotation_matrix :: "ffd_parameters \<Rightarrow> real mat3" where
  "rotation_matrix s =
     angles2matrix (radians (vget (rot_angle s) 2)) (radians (vget (rot_angle s) 1))
       (radians (vget (rot_angle s) 0))"

text \<open>
  \<open>np.linspace(0, stop, num)\<close>: \<open>num\<close> evenly spaced samples from 0 to \<open>stop\<close>, the
  last of them set to \<open>stop\<close>; a single sample is 0; a negative \<open>num\<close> is a
  \<open>ValueError\<close>.
\<close>

definition np_linspace :: "real \<Rightarrow> int \<Rightarrow> error + real list" where
  "np_linspace stop num =
     (if num < 0 then Inl ValueError
      else let n = nat num in
        Inr (if n = 0 then [] else if n = 1 then [0]
             else (map (\<lambda>i. real i * (stop / real (n - 1))) [0 ..< n])[n - 1 := stop]))"

text \<open>
  \<open>np.meshgrid(a, b, c)\<close> with its default indexing: three arrays of the shape
  \<open>(len(b), len(a), len(c))\<close>; the first varies with \<open>a\<close> along axis 1, the second
  with \<open>b\<close> along axis 0, the third with \<open>c\<close> along axis 2.
\<close>

definition np_meshgrid ::
  "real list \<Rightarrow> real list \<Rightarrow> real list \<Rightarrow> ndarray \<times> ndarray \<times> ndarray" where
  "np_meshgrid a b c =
     (let sh = (length b, length a, length c) in
      (\<lparr>shape = sh, elems = map (\<lambda>bi. map (\<lambda>aj. map (\<lambda>ck. aj) c) a) b\<rparr>,
       \<lparr>shape = sh, elems = map (\<lambda>bi. map (\<lambda>aj. map (\<lambda>ck. bi) c) a) b\<rparr>,
       \<lparr>shape = sh, elems = map (\<lambda>bi. map (\<lambda>aj. map (\<lambda>ck. ck) c) a) b\<rparr>))"

text \<open>\<open>a.ravel()\<close>: the entries in row-major order.\<close>

definition np_ravel :: "ndarray \<Rightarrow> real list" where
  "np_ravel a = concat (concat (elems a))"

text \<open>
  The sum of two one-dimensional arrays: entry by entry when the lengths agree, an
  array of one entry is added to every entry of the other, and other lengths do not
  broadcast.
\<close>

definition np_add :: "real list \<Rightarrow> real list \<Rightarrow> error + real list" where
  "np_add xs ys =
     (if length xs = length ys then Inr (map2 (+) xs ys)
      else if length xs = 1 then Inr (map (\<lambda>y. hd xs + y) ys)
      else if length ys = 1 then Inr (map (\<lambda>x. x + hd ys) xs)
      else Inl ValueError)"

text \<open>
  \<open>np.array([r0, r1, r2])\<close> for three rows, as the list of its columns; rows of
  different lengths make no matrix.
\<close>

definition np_columns :: "real list \<Rightarrow> real list \<Rightarrow> real list \<Rightarrow> error + real vec3 list" where
  "np_columns r0 r1 r2 =
     (if length r0 = length r1 \<and> length r1 = length r2 then Inr (zip r0 (zip r1 r2))
      else Inl ValueError)"

definition vadd :: "real vec3 \<Rightarrow> real vec3 \<Rightarrow> real vec3" where
  "vadd u v = (case u of (a, b, c) \<Rightarrow> case v of (x, y, z) \<Rightarrow> (a + x, b + y, c + z))"

text \<open>
  \<open>save_points\<close>, up to the points that it hands to the writer of the library vtk,
  in the order in which it inserts them.  The file that vtk writes is not modelled.
\<close>

definition save_points :: "ffd_parameters \<Rightarrow> bool \<Rightarrow> error + real vec3 list" where
  "save_points s write_deformed =
     (case np_linspace (vget (box_length s) 0) (vget (n_control_points s) 0) of
        Inl e \<Rightarrow> Inl e
      | Inr x \<Rightarrow>
     (case np_linspace (vget (box_length s) 1) (vget (n_control_points s) 1) of
        Inl e \<Rightarrow> Inl e
      | Inr y \<Rightarrow>
     (case np_linspace (vget (box_length s) 2) (vget (n_control_points s) 2) of
        Inl e \<Rightarrow> Inl e
      | Inr z \<Rightarrow>
     (case np_meshgrid y x z of (lattice_y_coords, lattice_x_coords, lattice_z_coords) \<Rightarrow>
     (case
        (if write_deformed then
           (case np_add (np_ravel lattice_x_coords)
                   (map (\<lambda>v. v * vget (box_length s) 0) (np_ravel (array_mu_x s))) of
              Inl e \<Rightarrow> Inl e
            | Inr r0 \<Rightarrow>
           (case np_add (np_ravel lattice_y_coords)
                   (map (\<lambda>v. v * vget (box_length s) 1) (np_ravel (array_mu_y s))) of
              Inl e \<Rightarrow> Inl e
            | Inr r1 \<Rightarrow>
           (case np_add (np_ravel lattice_z_coords)
                   (map (\<lambda>v. v * vget (box_length s) 2) (np_ravel (array_mu_z s))) of
              Inl e \<Rightarrow> Inl e
            | Inr r2 \<Rightarrow> np_columns r0 r1 r2)))
         else np_columns (np_ravel lattice_x_coords) (np_ravel lattice_y_coords)
                (np_ravel lattice_z_coords)) of
        Inl e \<Rightarrow> Inl e
      | Inr box_points \<Rightarrow>
          Inr (map (\<lambda>p. vadd (mat_vec (rotation_matrix s) p) (box_origin s)) box_points))))))"


section \<open>Definitions for stating the properties of the codec\<close>

text \<open>
  A weight section as the format describes it: one line per index of the list, the
  first line after \<open>offset\<close> spaces and every further line after 13 spaces, each
  with the entry of the array at its index, whatever the entry is.
\<close>

fun weight_section :: "float_io \<Rightarrow> ndarray \<Rightarrow> nat \<Rightarrow> nat vec3 list \<Rightarrow> string" where
  "weight_section fio mu offset [] = []"
| "weight_section fio mu offset (idx # rest) =
     weight_line fio offset idx (item mu idx) @ weight_section fio mu 13 rest"

text \<open>The shape that a resolution stands for.\<close>

definition shape_of :: "int vec3 \<Rightarrow> nat vec3" where
  "shape_of n = (case n of (n0, n1, n2) \<Rightarrow> (nat n0, nat n1, nat n2))"

text \<open>
  Every index of the resolution is an index of the three weight arrays.  The
  invariant of the data model implies it.
\<close>

definition weights_cover :: "ffd_parameters \<Rightarrow> bool" where
  "weights_cover s =
     (\<forall>idx. in_shape (shape_of (n_control_points s)) idx \<longrightarrow>
        in_shape (shape (array_mu_x s)) idx \<and> in_shape (shape (array_mu_y s)) idx \<and>
        in_shape (shape (array_mu_z s)) idx)"




text \<open>
  What the round trip needs of the text of a float: it is one token (not empty, no
  whitespace in it) and \<open>float\<close> reads it back as the same float.  Python's
  \<open>str\<close> and \<open>float\<close> have this property for every float; the examples' formatter
  has it for the floats it knows.
\<close>

definition token :: "string \<Rightarrow> bool" where
  "token t = (t \<noteq> [] \<and> (\<forall>c \<in> set t. \<not> is_space c))"

definition trimmed :: "string \<Rightarrow> bool" where
  "trimmed t = (t \<noteq> [] \<and> \<not> is_space (hd t) \<and> \<not> is_space (last t))"

definition float_text_ok :: "float_io \<Rightarrow> real \<Rightarrow> bool" where
  "float_text_ok fio x =
     (token (str_float fio x) \<and> py_float fio (str_float fio x) = Some x)"

definition vec_ok :: "float_io \<Rightarrow> real vec3 \<Rightarrow> bool" where
  "vec_ok fio v = (case v of (a, b, c) \<Rightarrow>
     float_text_ok fio a \<and> float_text_ok fio b \<and> float_text_ok fio c)"

definition floats_ok :: "float_io \<Rightarrow> ffd_parameters \<Rightarrow> bool" where
  "floats_ok fio s =
     (vec_ok fio (box_length s) \<and> vec_ok fio (box_origin s) \<and> vec_ok fio (rot_angle s) \<and>
      (\<forall>r \<in> set (concat (concat (elems (array_mu_x s)))). float_text_ok fio r) \<and>
      (\<forall>r \<in> set (concat (concat (elems (array_mu_y s)))). float_text_ok fio r) \<and>
      (\<forall>r \<in> set (concat (concat (elems (array_mu_z s)))). float_text_ok fio r))"

text \<open>The text of one entry of a weight section, without indentation and newline.\<close>

definition entry_text :: "float_io \<Rightarrow> ndarray \<Rightarrow> nat vec3 \<Rightarrow> string" where
  "entry_text fio mu idx =
     (case idx of (i, j, k) \<Rightarrow>
        str_int (int i) @ ''   '' @ str_int (int j) @ ''   '' @ str_int (int k) @ ''   '' @
        str_float fio (item mu idx))"

text \<open>A text as the lines that it consists of, each ended by a newline.\<close>

definition unlines :: "string list \<Rightarrow> string" where
  "unlines ls = concat (map (\<lambda>l. l @ [nl]) ls)"

text \<open>
  The lines of the text that \<open>write_parameters\<close> builds: the lines before the weights
  along x, then each weight section with its first entry on the line of its key and
  every further entry on a line of its own after 13 spaces.
\<close>

definition head_lines :: "float_io \<Rightarrow> ffd_parameters \<Rightarrow> string list" where
  "head_lines fio s =
     [[],
      ''[Box info]'',
      ''# This section collects all the properties of the FFD bounding box.'',
      [],
      ''# n control points indicates the number of control points in each direction (x, y, z).'',
      ''# For example, to create a 2 x 3 x 2 grid, use the following: n control points: 2, 3, 2'',
      ''n control points x: '' @ str_int (vget (n_control_points s) 0),
      ''n control points y: '' @ str_int (vget (n_control_points s) 1),
      ''n control points z: '' @ str_int (vget (n_control_points s) 2),
      [],
      ''# box length indicates the length of the FFD bounding box along the three canonical directions (x, y, z).'',
      ''# It uses the local coordinate system.'',
      ''# For example to create a 2 x 1.5 x 3 meters box use the following: box length: 2.0, 1.5, 3.0'',
      ''box length x: '' @ str_float fio (vget (box_length s) 0),
      ''box length y: '' @ str_float fio (vget (box_length s) 1),
      ''box length z: '' @ str_float fio (vget (box_length s) 2),
      [],
      ''# box origin indicates the x, y, and z coordinates of the origin of the FFD bounding box. That is center of'',
      ''# rotation of the bounding box. It corresponds to the point coordinates with position [0][0][0].'',
      ''# See section '' @ [CHR 0x22] @ ''Parameters weights'' @ [CHR 0x22] @ '' for more details.'',
      ''# For example, if the origin is equal to 0., 0., 0., use the following: box origin: 0., 0., 0.'',
      ''box origin x: '' @ str_float fio (vget (box_origin s) 0),
      ''box origin y: '' @ str_float fio (vget (box_origin s) 1),
      ''box origin z: '' @ str_float fio (vget (box_origin s) 2),
      [],
      ''# rotation angle indicates the rotation angle around the x, y, and z axis of the FFD bounding box in degrees.'',
      ''# The rotation is done with respect to the box origin.'',
      ''# For example, to rotate the box by 2 deg along the z direction, use the following: rotation angle: 0., 0., 2.'',
      ''rotation angle x: '' @ str_float fio (vget (rot_angle s) 0),
      ''rotation angle y: '' @ str_float fio (vget (rot_angle s) 1),
      ''rotation angle z: '' @ str_float fio (vget (rot_angle s) 2),
      [],
      [],
      ''[Parameters weights]'',
      ''# This section describes the weights of the FFD control points.'',
      ''# We adopt the following convention:'',
      ''# For example with a 2x2x2 grid of control points we have to fill a 2x2x2 matrix of weights.'',
      ''# If a weight is equal to zero you can discard the line since the default is zero.'',
      ''#'',
      ''# | x index | y index | z index | weight |'',
      ''#  --------------------------------------'',
      ''# |    0    |    0    |    0    |  1.0   |'',
      ''# |    0    |    1    |    1    |  0.0   | --> you can erase this line without effects'',
      ''# |    0    |    1    |    0    | -2.1   |'',
      ''# |    0    |    0    |    1    |  3.4   |'',
      [],
      ''# parameter x collects the displacements along x, normalized with the box length x.'']"

definition comment_y :: string where
  "comment_y = ''# parameter y collects the displacements along y, normalized with the box length y.''"

definition comment_z :: string where
  "comment_z = ''# parameter z collects the displacements along z, normalized with the box length z.''"

text \<open>Entries of a weight section that the parser takes as the lines of one value.\<close>

definition entries_ok :: "string list \<Rightarrow> bool" where
  "entries_ok es =
     (es \<noteq> [] \<and> (\<forall>e \<in> set es. trimmed e \<and> hd e \<noteq> CHR ''#'' \<and> hd e \<noteq> CHR '';''))"

definition section_lines :: "string \<Rightarrow> string list \<Rightarrow> string list" where
  "section_lines key es =
     (case es of
        [] \<Rightarrow> [key @ '':'']
      | e # rest \<Rightarrow> (key @ '': '' @ e) # map (\<lambda>v. replicate 13 (CHR '' '') @ v) rest)"

definition all_lines :: "float_io \<Rightarrow> ffd_parameters \<Rightarrow> string list" where
  "all_lines fio s =
     (let idxs = grid_indices (n_control_points s) in
      head_lines fio s @
      section_lines ''parameter x'' (map (entry_text fio (array_mu_x s)) idxs) @
      [[], comment_y] @
      section_lines ''parameter y'' (map (entry_text fio (array_mu_y s)) idxs) @
      [[], comment_z] @
      section_lines ''parameter z'' (map (entry_text fio (array_mu_z s)) idxs))"

text \<open>A key of the file: it has no delimiter in it and starts no comment or header.\<close>

definition key_ok :: "string \<Rightarrow> bool" where
  "key_ok k = (trimmed k \<and> CHR '':'' \<notin> set k \<and> CHR ''='' \<notin> set k \<and>
               hd k \<noteq> CHR ''#'' \<and> hd k \<noteq> CHR '';'' \<and> hd k \<noteq> CHR ''['')"

text \<open>
  The state of the parser after the lines before the weights along x, and the
  dictionary of the section \<open>Box info\<close> in it.
\<close>

definition box_info_dict :: "float_io \<Rightarrow> ffd_parameters \<Rightarrow> (string \<rightharpoonup> string list)" where
  "box_info_dict fio s =
     [''n control points x'' \<mapsto> [str_int (vget (n_control_points s) 0)],
      ''n control points y'' \<mapsto> [str_int (vget (n_control_points s) 1)],
      ''n control points z'' \<mapsto> [str_int (vget (n_control_points s) 2), []],
      ''box length x'' \<mapsto> [str_float fio (vget (box_length s) 0)],
      ''box length y'' \<mapsto> [str_float fio (vget (box_length s) 1)],
      ''box length z'' \<mapsto> [str_float fio (vget (box_length s) 2), []],
      ''box origin x'' \<mapsto> [str_float fio (vget (box_origin s) 0)],
      ''box origin y'' \<mapsto> [str_float fio (vget (box_origin s) 1)],
      ''box origin z'' \<mapsto> [str_float fio (vget (box_origin s) 2), []],
      ''rotation angle x'' \<mapsto> [str_float fio (vget (rot_angle s) 0)],
      ''rotation angle y'' \<mapsto> [str_float fio (vget (rot_angle s) 1)],
      ''rotation angle z'' \<mapsto> [str_float fio (vget (rot_angle s) 2), [], []]]"

definition head_parser :: "float_io \<Rightarrow> ffd_parameters \<Rightarrow> parser" where
  "head_parser fio s =
     \<lparr>p_sections = [''Box info'' \<mapsto> box_info_dict fio s,
                    ''Parameters weights'' \<mapsto> Map.empty],
      p_defaults = Map.empty, p_cursect = Sect ''Parameters weights'',
      p_optname = None, p_indent = 0, p_error = False\<rparr>"

text \<open>The parsed form of the text that \<open>write_parameters\<close> builds.\<close>

definition written_config :: "float_io \<Rightarrow> ffd_parameters \<Rightarrow> config" where
  "written_config fio s =
     \<lparr>c_sections =
        (\<lambda>name. map_option (\<lambda>d k. map_option join_value (d k))
           ([''Box info'' \<mapsto> box_info_dict fio s,
             ''Parameters weights'' \<mapsto>
               [''parameter x'' \<mapsto>
                  map (entry_text fio (array_mu_x s)) (grid_indices (n_control_points s)) @ [[]],
                ''parameter y'' \<mapsto>
                  map (entry_text fio (array_mu_y s)) (grid_indices (n_control_points s)) @ [[]],
                ''parameter z'' \<mapsto>
                  map (entry_text fio (array_mu_z s)) (grid_indices (n_control_points s))]] name)),
      c_defaults = (\<lambda>k. map_option join_value (Map.empty k))\<rparr>"


section \<open>Example lattices\<close>

definition lattice_2x2x1 :: ffd_parameters where
  "lattice_2x2x1 =
     \<lparr>conversion_unit = 1, box_length = (1, 1, 1), box_origin = (0, 0, 0),
      rot_angle = (0, 0, 0), n_control_points = (2, 2, 1),
      array_mu_x = \<lparr>shape = (2, 2, 1), elems = [[[1 / 2], [1 / 4]], [[0], [0]]]\<rparr>,
      array_mu_y = \<lparr>shape = (2, 2, 1), elems = [[[1], [2]], [[3], [4]]]\<rparr>,
      array_mu_z = \<lparr>shape = (2, 2, 1), elems = [[[0], [0]], [[0], [0]]]\<rparr>\<rparr>"

definition lattice_deformed_face :: ffd_parameters where
  "lattice_deformed_face =
     lattice_2x2x1\<lparr>array_mu_x := \<lparr>shape = (2, 2, 1), elems = [[[0], [0]], [[0], [1 / 8]]]\<rparr>\<rparr>"



text \<open>
  A formatter and a parser of floats for the examples; they know the floats
  0, 1, 1/2 and -2, written as Python writes them.
\<close>

definition example_io :: float_io where
  "example_io =
     \<lparr>str_float = (\<lambda>x. if x = 0 then ''0.0'' else if x = 1 then ''1.0''
                        else if x = 1 / 2 then ''0.5'' else if x = - 2 then ''-2.0''
                        else ''nan''),
      py_float = (\<lambda>t. if strip t = ''0.0'' then Some 0 else if strip t = ''1.0'' then Some 1
                       else if strip t = ''0.5'' then Some (1 / 2)
                       else if strip t = ''-2.0'' then Some (- 2) else None)\<rparr>"



text \<open>The object that \<open>FFDParameters()\<close> constructs.\<close>

definition default_store :: ffd_parameters where
  "default_store =
     \<lparr>conversion_unit = 1, box_length = (1, 1, 1), box_origin = (0, 0, 0),
      rot_angle = (0, 0, 0), n_control_points = (2, 2, 2),
      array_mu_x = \<lparr>shape = (2, 2, 2), elems = [[[0, 0], [0, 0]], [[0, 0], [0, 0]]]\<rparr>,
      array_mu_y = \<lparr>shape = (2, 2, 2), elems = [[[0, 0], [0, 0]], [[0, 0], [0, 0]]]\<rparr>,
      array_mu_z = \<lparr>shape = (2, 2, 2), elems = [[[0, 0], [0, 0]], [[0, 0], [0, 0]]]\<rparr>\<rparr>"

text \<open>An object made by \<open>FFDParameters([2, 1, 2])\<close> whose fields were then set.\<close>

definition lattice_2x1x2 :: ffd_parameters where
  "lattice_2x1x2 =
     \<lparr>conversion_unit = 1, box_length = (1, 1 / 2, 1), box_origin = (0, - 2, 0),
      rot_angle = (0, 0, 1), n_control_points = (2, 1, 2),
      array_mu_x = \<lparr>shape = (2, 1, 2), elems = [[[1 / 2, 0]], [[0, 1]]]\<rparr>,
      array_mu_y = \<lparr>shape = (2, 1, 2), elems = [[[1, - 2]], [[0, 0]]]\<rparr>,
      array_mu_z = \<lparr>shape = (2, 1, 2), elems = [[[0, 0]], [[0, 0]]]\<rparr>\<rparr>"

text \<open>The corners of the unit cube in the order of the grid.\<close>

definition unit_cube_corners :: "real vec3 list" where
  "unit_cube_corners =
     [(0, 0, 0), (0, 0, 1), (0, 1, 0), (0, 1, 1), (1, 0, 0), (1, 0, 1), (1, 1, 0), (1, 1, 1)]"


section \<open>Properties of the reflection\<close>

lemma refl_nth_orig: "i < length xs \<Longrightarrow> (xs @ map f (drop 1 (rev xs))) ! i = xs ! i"
  by (simp add: nth_append)

lemma refl_nth_mirror:
  assumes "1 \<le> m" "m \<le> length xs - 1"
  shows "(xs @ map f (drop 1 (rev xs))) ! (length xs - 1 + m) = f (xs ! (length xs - 1 - m))"
proof -
  have e: "length xs - 1 + m - length xs = m - 1" and n: "\<not> length xs - 1 + m < length xs"
    using assms by auto
  have "(xs @ map f (drop 1 (rev xs))) ! (length xs - 1 + m) = map f (drop 1 (rev xs)) ! (m - 1)"
    unfolding nth_append using e n by simp
  also have "\<dots> = f (rev xs ! m)" using assms by simp
  also have "rev xs ! m = xs ! (length xs - 1 - m)" using assms by (simp add: rev_nth)
  finally show ?thesis .
qed

lemma map2_append_map: "map2 (@) xs (map g xs) = map (\<lambda>x. x @ g x) xs"
  by (induction xs) auto

lemma map2_map2_append_map:
  "map2 (map2 (@)) xs (map (map g) xs) = map (map (\<lambda>x. x @ g x)) xs"
  by (induction xs) (auto simp: map2_append_map)

lemma reflected_0:
  "reflected mu c 0 = Inr \<lparr>shape = vset (shape mu) 0 (vget (shape mu) 0 + (vget (shape mu) 0 - 1)),
      elems = elems mu @ map (map (map (\<lambda>v. c * v))) (drop 1 (rev (elems mu)))\<rparr>"
  by (cases "shape mu") (simp add: reflected_def np_append_def np_scale_def slice_from1_def np_flip_def drop_map)

lemma reflected_1:
  "reflected mu c 1 = Inr \<lparr>shape = vset (shape mu) 1 (vget (shape mu) 1 + (vget (shape mu) 1 - 1)),
      elems = map (\<lambda>p. p @ map (map (\<lambda>v. c * v)) (drop 1 (rev p))) (elems mu)\<rparr>"
  by (cases "shape mu") (simp add: reflected_def np_append_def np_scale_def slice_from1_def np_flip_def drop_map map2_append_map)

lemma reflected_2:
  "reflected mu c 2 = Inr \<lparr>shape = vset (shape mu) 2 (vget (shape mu) 2 + (vget (shape mu) 2 - 1)),
      elems = map (map (\<lambda>r. r @ map (\<lambda>v. c * v) (drop 1 (rev r)))) (elems mu)\<rparr>"
  by (cases "shape mu") (simp add: reflected_def np_append_def np_scale_def slice_from1_def np_flip_def drop_map map2_map2_append_map)

lemma count_nonzero_zero: "(\<And>r v. r \<in> set face \<Longrightarrow> v \<in> set r \<Longrightarrow> v = 0) \<Longrightarrow> count_nonzero face = 0"
  by (auto simp: count_nonzero_def filter_empty_conv)

lemma valid_arr_row: "valid_arr a \<Longrightarrow> shape a = (d0, d1, d2) \<Longrightarrow> i < d0 \<Longrightarrow> length (elems a ! i) = d1"
  by (auto simp: valid_arr_def)

lemma valid_arr_col:
  assumes "valid_arr a" "shape a = (d0, d1, d2)" "i < d0" "j < d1"
  shows "length (elems a ! i ! j) = d2"
proof -
  have inv: "\<forall>p \<in> set (elems a). length p = d1 \<and> (\<forall>r \<in> set p. length r = d2)"
    and len: "length (elems a) = d0"
    using assms by (auto simp: valid_arr_def)
  have p: "elems a ! i \<in> set (elems a)" using len assms by simp
  have l: "length (elems a ! i) = d1" using inv p by blast
  have q: "elems a ! i ! j \<in> set (elems a ! i)" using l assms by simp
  show ?thesis using inv p q by blast
qed

lemma valid_arr_len: "valid_arr a \<Longrightarrow> shape a = (d0, d1, d2) \<Longrightarrow> length (elems a) = d0"
  by (auto simp: valid_arr_def)

lemma last_slice_zero:
  assumes v: "valid_arr a" and sh: "shape a = (d0, d1, d2)" and ax: "axis \<in> {0, 1, 2}"
    and pos: "0 < vget (shape a) axis"
    and z: "\<And>idx. in_shape (shape a) idx \<Longrightarrow> item a (vset idx axis (vget (shape a) axis - 1)) = 0"
  shows "\<exists>face. last_slice a axis = Inr face \<and> count_nonzero face = 0"
proof -
  note len = valid_arr_len[OF v sh] and row = valid_arr_row[OF v sh] and col = valid_arr_col[OF v sh]
  consider "axis = 0" | "axis = 1" | "axis = 2" using ax by auto
  then show ?thesis
  proof cases
    case 1
    then have d0: "0 < d0" using pos sh by simp
    have ne: "elems a \<noteq> []" using len d0 by auto
    have "count_nonzero (last (elems a)) = 0"
    proof (rule count_nonzero_zero)
      fix r v assume r: "r \<in> set (last (elems a))" and vr: "v \<in> set r"
      have l: "last (elems a) = elems a ! (d0 - 1)" using ne len by (simp add: last_conv_nth)
      from r obtain j where j: "j < d1" "r = elems a ! (d0 - 1) ! j"
        using row[of "d0 - 1"] d0 unfolding l by (auto simp: in_set_conv_nth)
      from vr obtain k where k: "k < d2" "v = r ! k"
        using col[of "d0 - 1" j] d0 j by (auto simp: in_set_conv_nth)
      have "in_shape (shape a) (0, j, k)" using d0 j k sh by (simp add: in_shape_def)
      from z[OF this] show "v = 0" using 1 sh j k by (simp add: item_def)
    qed
    then show ?thesis using 1 d0 sh by (simp add: last_slice_def)
  next
    case 2
    then have d1: "0 < d1" using pos sh by simp
    have "count_nonzero (map last (elems a)) = 0"
    proof (rule count_nonzero_zero)
      fix r v assume r: "r \<in> set (map last (elems a))" and vr: "v \<in> set r"
      from r obtain i where i: "i < d0" "r = last (elems a ! i)"
        using len by (auto simp: in_set_conv_nth)
      have l: "last (elems a ! i) = elems a ! i ! (d1 - 1)"
        using row[OF i(1)] d1 by (subst last_conv_nth) auto
      from vr obtain k where k: "k < d2" "v = r ! k"
        using col[of i "d1 - 1"] d1 i l by (auto simp: in_set_conv_nth)
      have "in_shape (shape a) (i, 0, k)" using d1 i k sh by (simp add: in_shape_def)
      from z[OF this] show "v = 0" using 2 sh i k l by (simp add: item_def)
    qed
    then show ?thesis using 2 d1 sh by (simp add: last_slice_def)
  next
    case 3
    then have d2: "0 < d2" using pos sh by simp
    have "count_nonzero (map (map last) (elems a)) = 0"
    proof (rule count_nonzero_zero)
      fix r v assume r: "r \<in> set (map (map last) (elems a))" and vr: "v \<in> set r"
      from r obtain i where i: "i < d0" "r = map last (elems a ! i)"
        using len by (auto simp: in_set_conv_nth)
      from vr obtain j where j: "j < d1" "v = last (elems a ! i ! j)"
        using row[OF i(1)] i by (auto simp: in_set_conv_nth)
      have l: "last (elems a ! i ! j) = elems a ! i ! j ! (d2 - 1)"
        using col[OF i(1) j(1)] d2 by (subst last_conv_nth) auto
      have "in_shape (shape a) (i, j, 0)" using d2 i j sh by (simp add: in_shape_def)
      from z[OF this] show "v = 0" using 3 sh i j l by (simp add: item_def)
    qed
    then show ?thesis using 3 d2 sh by (simp add: last_slice_def)
  qed
qed

lemma reflected_total: "axis \<in> {0, 1, 2} \<Longrightarrow> \<exists>r. reflected mu c axis = Inr r"
  using reflected_0 reflected_1 reflected_2 by auto

lemma reflected_item_orig:
  assumes v: "valid_arr mu" and ax: "axis \<in> {0, 1, 2}" and i: "in_shape (shape mu) idx"
    and r: "reflected mu c axis = Inr r"
  shows "item r idx = item mu idx"
proof -
  obtain d0 d1 d2 where sh: "shape mu = (d0, d1, d2)" by (cases "shape mu")
  obtain i j k where idx: "idx = (i, j, k)" by (cases idx)
  have b: "i < d0" "j < d1" "k < d2" using i sh idx by (auto simp: in_shape_def)
  note len = valid_arr_len[OF v sh] and row = valid_arr_row[OF v sh b(1)] and col = valid_arr_col[OF v sh b(1) b(2)]
  consider "axis = 0" | "axis = 1" | "axis = 2" using ax by auto
  then show ?thesis
  proof cases
    case 1
    then have "elems r = elems mu @ map (map (map (\<lambda>v. c * v))) (drop 1 (rev (elems mu)))"
      using r by (auto simp: reflected_0)
    then show ?thesis using b len unfolding idx by (simp add: item_def nth_append)
  next
    case 2
    then have "elems r =  map (\<lambda>p. p @ map (map (\<lambda>v. c * v)) (drop 1 (rev p))) (elems mu)"
      using r by (auto simp: reflected_1)
    then show ?thesis using b len row unfolding idx by (simp add: item_def nth_append)
  next
    case 3
    then have "elems r = map (map (\<lambda>r. r @ map (\<lambda>v. c * v) (drop 1 (rev r)))) (elems mu)"
      using r by (auto simp: reflected_2)
    then show ?thesis using b len row col unfolding idx by (simp add: item_def nth_append)
  qed
qed

lemma reflected_item_mirror:
  assumes v: "valid_arr mu" and ax: "axis \<in> {0, 1, 2}" and i: "in_shape (shape mu) idx"
    and m: "1 \<le> m" "m \<le> vget (shape mu) axis - 1"
    and r: "reflected mu c axis = Inr r"
  shows "item r (vset idx axis (vget (shape mu) axis - 1 + m))
         = c * item mu (vset idx axis (vget (shape mu) axis - 1 - m))"
proof -
  obtain d0 d1 d2 where sh: "shape mu = (d0, d1, d2)" by (cases "shape mu")
  obtain i j k where idx: "idx = (i, j, k)" by (cases idx)
  have b: "i < d0" "j < d1" "k < d2" using i sh idx by (auto simp: in_shape_def)
  note len = valid_arr_len[OF v sh] and row = valid_arr_row[OF v sh] and col = valid_arr_col[OF v sh]
  consider "axis = 0" | "axis = 1" | "axis = 2" using ax by auto
  then show ?thesis
  proof cases
    case 1
    have m': "1 \<le> m" "m \<le> length (elems mu) - 1" using m 1 sh len by auto
    have lt: "d0 - 1 - m < d0" using b by simp
    have "item r (vset idx axis (vget (shape mu) axis - 1 + m))
          = (elems mu @ map (map (map (\<lambda>v. c * v))) (drop 1 (rev (elems mu)))) ! (length (elems mu) - 1 + m) ! j ! k"
      using r 1 sh len unfolding idx by (auto simp add: reflected_0 item_def)
    also have "\<dots> = map (map (\<lambda>v. c * v)) (elems mu ! (length (elems mu) - 1 - m)) ! j ! k"
      by (simp only: refl_nth_mirror[OF m'])
    also have "\<dots> = c * elems mu ! (d0 - 1 - m) ! j ! k"
      using len b row[OF lt] col[OF lt b(2)] by simp
    finally show ?thesis using 1 sh unfolding idx by (simp add: item_def)
  next
    case 2
    have m': "1 \<le> m" "m \<le> length (elems mu ! i) - 1" using m 2 sh row[OF b(1)] by auto
    have lt: "d1 - 1 - m < d1" using b by simp
    have "item r (vset idx axis (vget (shape mu) axis - 1 + m))
          = (elems mu ! i @ map (map (\<lambda>v. c * v)) (drop 1 (rev (elems mu ! i)))) ! (length (elems mu ! i) - 1 + m) ! k"
      using r 2 sh len b row[OF b(1)] unfolding idx by (auto simp add: reflected_1 item_def)
    also have "\<dots> = map (\<lambda>v. c * v) (elems mu ! i ! (length (elems mu ! i) - 1 - m)) ! k"
      by (simp only: refl_nth_mirror[OF m'])
    also have "\<dots> = c * elems mu ! i ! (d1 - 1 - m) ! k"
      using len b row[OF b(1)] col[OF b(1) lt] by simp
    finally show ?thesis using 2 sh unfolding idx by (simp add: item_def)
  next
    case 3
    have m': "1 \<le> m" "m \<le> length (elems mu ! i ! j) - 1" using m 3 sh col[OF b(1) b(2)] by auto
    have "item r (vset idx axis (vget (shape mu) axis - 1 + m))
          = (elems mu ! i ! j @ map (\<lambda>v. c * v) (drop 1 (rev (elems mu ! i ! j)))) ! (length (elems mu ! i ! j) - 1 + m)"
      using r 3 sh len b row[OF b(1)] col[OF b(1) b(2)] unfolding idx by (auto simp add: reflected_2 item_def)
    also have "\<dots> = c * (elems mu ! i ! j ! (length (elems mu ! i ! j) - 1 - m))"
      by (simp only: refl_nth_mirror[OF m'])
    finally show ?thesis using 3 sh col[OF b(1) b(2)] unfolding idx by (simp add: item_def)
  qed
qed

lemma vget_vset_same: "axis \<in> {0, 1, 2} \<Longrightarrow> vget (vset v axis x) axis = x"
  by (cases v) auto

lemma wrap64_id: "- (2 ^ 63) \<le> x \<Longrightarrow> x < 2 ^ 63 \<Longrightarrow> wrap64 x = x"
  by (simp add: wrap64_def)

lemma symmetry_plane_undeformed:
  assumes v: "valid_arr (array_mu s axis)" and ax: "axis \<in> {0, 1, 2}"
    and pos: "0 < vget (shape (array_mu s axis)) axis"
    and z: "\<And>idx. in_shape (shape (array_mu s axis)) idx \<Longrightarrow>
              item (array_mu s axis) (vset idx axis (vget (shape (array_mu s axis)) axis - 1)) = 0"
  shows "symmetry_plane_deformed s axis = Inr False"
proof -
  obtain d0 d1 d2 where sh: "shape (array_mu s axis) = (d0, d1, d2)"
    by (cases "shape (array_mu s axis)")
  from last_slice_zero[OF v sh ax pos z] obtain face
    where "last_slice (array_mu s axis) axis = Inr face" "count_nonzero face = 0" by blast
  then show ?thesis by (simp add: symmetry_plane_deformed_def array_mu_def)
qed

lemma reflect_success:
  assumes ax: "axis \<in> {0, 1, 2}" and und: "symmetry_plane_deformed s axis = Inr False"
    and rx: "reflected (array_mu_x s) (if axis = 0 then - 1 else 1) axis = Inr mx"
    and ry: "reflected (array_mu_y s) (if axis = 1 then - 1 else 1) axis = Inr my"
    and rz: "reflected (array_mu_z s) (if axis = 2 then - 1 else 1) axis = Inr mz"
  shows "reflect s axis =
    (Returned, s\<lparr>n_control_points := vset (n_control_points s) axis
                      (wrap64 (2 * vget (n_control_points s) axis - 1)),
                  box_length := vset (box_length s) axis (vget (box_length s) axis * 2),
                  array_mu_x := mx, array_mu_y := my, array_mu_z := mz\<rparr>)"
proof -
  consider "axis = 0" | "axis = 1" | "axis = 2" using ax by auto
  then show ?thesis
  proof cases
    case 1 then show ?thesis using und rx ry rz by (simp add: reflect_def)
  next
    case 2 then show ?thesis using und rx ry rz by (simp add: reflect_def)
  next
    case 3 then show ?thesis using und rx ry rz by (simp add: reflect_def)
  qed
qed

text \<open>
  Claim C1.  On a store that satisfies the invariant of the data model and whose
  own weight array for \<open>axis\<close> is zero on its last slice along \<open>axis\<close>,
  \<open>reflect\<close> returns normally; the resolution on \<open>axis\<close> becomes \<open>2 * n - 1\<close>,
  the box length on \<open>axis\<close> doubles, every entry of the three weight arrays at an
  index of the original range is unchanged, and the entry at \<open>(n - 1) + m\<close> along
  \<open>axis\<close> is the entry at \<open>(n - 1) - m\<close>, negated for the weight array of \<open>axis\<close>
  and as it is for the other two, for \<open>1 \<le> m \<le> n - 1\<close>.
\<close>

theorem reflect_law:
  assumes vs: "valid_store s" and ax: "axis \<in> {0, 1, 2}"
    and z: "\<forall>idx. in_shape (shape (array_mu s axis)) idx \<longrightarrow>
              item (array_mu s axis)
                (vset idx axis (nat (vget (n_control_points s) axis) - 1)) = 0"
  shows "\<exists>s'. reflect s axis = (Returned, s') \<and>
           vget (n_control_points s') axis = 2 * vget (n_control_points s) axis - 1 \<and>
           vget (box_length s') axis = 2 * vget (box_length s) axis \<and>
           (\<forall>b \<in> {0, 1, 2}. \<forall>idx. in_shape (shape (array_mu s b)) idx \<longrightarrow>
              item (array_mu s' b) idx = item (array_mu s b) idx \<and>
              (\<forall>m. 1 \<le> m \<and> m \<le> nat (vget (n_control_points s) axis) - 1 \<longrightarrow>
                 item (array_mu s' b)
                   (vset idx axis (nat (vget (n_control_points s) axis) - 1 + m)) =
                 (if b = axis
                  then - item (array_mu s b)
                           (vset idx axis (nat (vget (n_control_points s) axis) - 1 - m))
                  else item (array_mu s b)
                         (vset idx axis (nat (vget (n_control_points s) axis) - 1 - m)))))"
proof -
  obtain n0 n1 n2 where n: "n_control_points s = (n0, n1, n2)" by (cases "n_control_points s")
  define sh where "sh = (nat n0, nat n1, nat n2)"
  have rng: "1 \<le> n0" "n0 \<le> 2 ^ 62" "1 \<le> n1" "n1 \<le> 2 ^ 62" "1 \<le> n2" "n2 \<le> 2 ^ 62"
    and va: "valid_arr (array_mu_x s)" "valid_arr (array_mu_y s)" "valid_arr (array_mu_z s)"
    and sa: "shape (array_mu_x s) = sh" "shape (array_mu_y s) = sh" "shape (array_mu_z s) = sh"
    using vs n by (auto simp: valid_store_def sh_def)
  have vb: "valid_arr (array_mu s b)" and sb: "shape (array_mu s b) = sh" for b
    using va sa by (auto simp: array_mu_def)
  define na where "na = vget (n_control_points s) axis"
  have na: "1 \<le> na" "na \<le> 2 ^ 62" and dim: "vget sh axis = nat na"
    using ax rng n by (auto simp: na_def sh_def)
  have und: "symmetry_plane_deformed s axis = Inr False"
  proof (rule symmetry_plane_undeformed[OF vb ax])
    show "0 < vget (shape (array_mu s axis)) axis" using sb dim na by simp
    fix idx assume "in_shape (shape (array_mu s axis)) idx"
    from z[rule_format, OF this]
    show "item (array_mu s axis)
                 (vset idx axis (vget (shape (array_mu s axis)) axis - 1)) = 0"
      by (simp only: sb dim na_def)
  qed
  obtain mx where rx: "reflected (array_mu_x s) (if axis = 0 then - 1 else 1) axis = Inr mx"
    using reflected_total[OF ax] by blast
  obtain my where ry: "reflected (array_mu_y s) (if axis = 1 then - 1 else 1) axis = Inr my"
    using reflected_total[OF ax] by blast
  obtain mz where rz: "reflected (array_mu_z s) (if axis = 2 then - 1 else 1) axis = Inr mz"
    using reflected_total[OF ax] by blast
  define s' where "s' = s\<lparr>n_control_points := vset (n_control_points s) axis
                      (wrap64 (2 * vget (n_control_points s) axis - 1)),
                  box_length := vset (box_length s) axis (vget (box_length s) axis * 2),
                  array_mu_x := mx, array_mu_y := my, array_mu_z := mz\<rparr>"
  have r: "reflect s axis = (Returned, s')"
    unfolding s'_def by (rule reflect_success[OF ax und rx ry rz])
  have w: "wrap64 (2 * na - 1) = 2 * na - 1"
    using na by (intro wrap64_id) auto
  have c1: "vget (n_control_points s') axis = 2 * vget (n_control_points s) axis - 1"
    using w by (simp add: s'_def vget_vset_same[OF ax] na_def)
  have c2: "vget (box_length s') axis = 2 * vget (box_length s) axis"
    by (simp add: s'_def vget_vset_same[OF ax])
  have rb: "reflected (array_mu s b) (if b = axis then - 1 else 1) axis = Inr (array_mu s' b)"
    if "b \<in> {0, 1, 2}" for b
    using that rx ry rz by (auto simp: array_mu_def s'_def)
  have c3: "item (array_mu s' b) idx = item (array_mu s b) idx \<and>
              (\<forall>m. 1 \<le> m \<and> m \<le> nat na - 1 \<longrightarrow>
                 item (array_mu s' b) (vset idx axis (nat na - 1 + m)) =
                 (if b = axis
                  then - item (array_mu s b) (vset idx axis (nat na - 1 - m))
                  else item (array_mu s b) (vset idx axis (nat na - 1 - m))))"
    if b: "b \<in> {0, 1, 2}" and i: "in_shape (shape (array_mu s b)) idx" for b idx
  proof (intro conjI allI impI)
    show "item (array_mu s' b) idx = item (array_mu s b) idx"
      by (rule reflected_item_orig[OF vb ax i rb[OF b]])
    fix m assume m: "1 \<le> m \<and> m \<le> nat na - 1"
    then have m': "1 \<le> m" "m \<le> vget (shape (array_mu s b)) axis - 1"
      using sb dim by auto
    from reflected_item_mirror[OF vb ax i m' rb[OF b]]
    show "item (array_mu s' b) (vset idx axis (nat na - 1 + m)) =
            (if b = axis
             then - item (array_mu s b) (vset idx axis (nat na - 1 - m))
             else item (array_mu s b) (vset idx axis (nat na - 1 - m)))"
      using sb dim by simp
  qed
  show ?thesis
    using r c1 c2 c3 unfolding na_def by blast
qed

lemma count_nonzero_pos: "r \<in> set face \<Longrightarrow> v \<in> set r \<Longrightarrow> v \<noteq> 0 \<Longrightarrow> count_nonzero face \<noteq> 0"
  by (auto simp: count_nonzero_def filter_empty_conv)

lemma last_slice_nonzero:
  assumes v: "valid_arr a" and ax: "axis \<in> {0, 1, 2}" and i: "in_shape (shape a) idx"
    and nz: "item a (vset idx axis (vget (shape a) axis - 1)) \<noteq> 0"
  shows "\<exists>face. last_slice a axis = Inr face \<and> count_nonzero face \<noteq> 0"
proof -
  obtain d0 d1 d2 where sh: "shape a = (d0, d1, d2)" by (cases "shape a")
  obtain i j k where idx: "idx = (i, j, k)" by (cases idx)
  have b: "i < d0" "j < d1" "k < d2" using i sh idx by (auto simp: in_shape_def)
  note len = valid_arr_len[OF v sh] and row = valid_arr_row[OF v sh] and col = valid_arr_col[OF v sh]
  consider "axis = 0" | "axis = 1" | "axis = 2" using ax by auto
  then show ?thesis
  proof cases
    case 1
    have lt: "d0 - 1 < d0" using b by simp
    have l: "last (elems a) = elems a ! (d0 - 1)"
      using len b by (subst last_conv_nth) auto
    have "elems a ! (d0 - 1) ! j \<in> set (last (elems a))"
      unfolding l using row[OF lt] b by simp
    moreover have "elems a ! (d0 - 1) ! j ! k \<in> set (elems a ! (d0 - 1) ! j)"
      using col[OF lt b(2)] b by simp
    moreover have "elems a ! (d0 - 1) ! j ! k \<noteq> 0"
      using nz 1 sh unfolding idx by (simp add: item_def)
    ultimately have "count_nonzero (last (elems a)) \<noteq> 0" by (rule count_nonzero_pos)
    then show ?thesis using 1 sh b by (simp add: last_slice_def)
  next
    case 2
    have lt: "d1 - 1 < d1" using b by simp
    have l: "last (elems a ! i) = elems a ! i ! (d1 - 1)"
      using row[OF b(1)] b by (subst last_conv_nth) auto
    have "elems a ! i \<in> set (elems a)" using len b by simp
    then have "last (elems a ! i) \<in> set (map last (elems a))" by simp
    then have "elems a ! i ! (d1 - 1) \<in> set (map last (elems a))" by (simp only: l)
    moreover have "elems a ! i ! (d1 - 1) ! k \<in> set (elems a ! i ! (d1 - 1))"
      using col[OF b(1) lt] b by simp
    moreover have "elems a ! i ! (d1 - 1) ! k \<noteq> 0"
      using nz 2 sh unfolding idx by (simp add: item_def)
    ultimately have "count_nonzero (map last (elems a)) \<noteq> 0" by (rule count_nonzero_pos)
    then show ?thesis using 2 sh b by (simp add: last_slice_def)
  next
    case 3
    have lt: "d2 - 1 < d2" using b by simp
    have l: "last (elems a ! i ! j) = elems a ! i ! j ! (d2 - 1)"
      using col[OF b(1) b(2)] b by (subst last_conv_nth) auto
    have "elems a ! i \<in> set (elems a)" using len b by simp
    then have "map last (elems a ! i) \<in> set (map (map last) (elems a))" by simp
    moreover have "elems a ! i ! j \<in> set (elems a ! i)" using row[OF b(1)] b by simp
    then have "last (elems a ! i ! j) \<in> set (map last (elems a ! i))" by simp
    then have "elems a ! i ! j ! (d2 - 1) \<in> set (map last (elems a ! i))" by (simp only: l)
    moreover have "elems a ! i ! j ! (d2 - 1) \<noteq> 0"
      using nz 3 sh unfolding idx by (simp add: item_def)
    ultimately have "count_nonzero (map (map last) (elems a)) \<noteq> 0" by (rule count_nonzero_pos)
    then show ?thesis using 3 sh b by (simp add: last_slice_def)
  qed
qed

text \<open>
  Claim C2.  \<open>reflect\<close> raises \<open>ValueError\<close> when the axis is not 0, 1 or 2, and
  \<open>RuntimeError\<close> when an entry of the axis's own weight array on the last slice
  along the axis is not zero; the store is then exactly as it was.
\<close>

theorem reflect_rejects:
  "(axis \<notin> {0, 1, 2} \<longrightarrow> reflect s axis = (Raised ValueError, s)) \<and>
   (axis \<in> {0, 1, 2} \<and> valid_arr (array_mu s axis) \<and>
    (\<exists>idx. in_shape (shape (array_mu s axis)) idx \<and>
           item (array_mu s axis)
             (vset idx axis (vget (shape (array_mu s axis)) axis - 1)) \<noteq> 0)
    \<longrightarrow> reflect s axis = (Raised RuntimeError, s))"
proof (intro conjI impI)
  assume "axis \<notin> {0, 1, 2}"
  then show "reflect s axis = (Raised ValueError, s)" by (simp add: reflect_def)
next
  assume a: "axis \<in> {0, 1, 2} \<and> valid_arr (array_mu s axis) \<and>
    (\<exists>idx. in_shape (shape (array_mu s axis)) idx \<and>
           item (array_mu s axis)
             (vset idx axis (vget (shape (array_mu s axis)) axis - 1)) \<noteq> 0)"
  then obtain idx where ax: "axis \<in> {0, 1, 2}" and v: "valid_arr (array_mu s axis)"
    and i: "in_shape (shape (array_mu s axis)) idx"
    and nz: "item (array_mu s axis)
             (vset idx axis (vget (shape (array_mu s axis)) axis - 1)) \<noteq> 0" by blast
  from last_slice_nonzero[OF v ax i nz] obtain face
    where "last_slice (array_mu s axis) axis = Inr face" "count_nonzero face \<noteq> 0" by blast
  then have "symmetry_plane_deformed s axis = Inr True"
    by (simp add: symmetry_plane_deformed_def array_mu_def)
  then show "reflect s axis = (Raised RuntimeError, s)" using ax by (simp add: reflect_def)
qed

lemma lattice_2x2x1_valid: "valid_store lattice_2x2x1"
  by (simp add: valid_store_def lattice_2x2x1_def valid_arr_def)

theorem reflect_law_witness:
  "valid_store lattice_2x2x1 \<and>
   (\<exists>s'. reflect lattice_2x2x1 0 = (Returned, s') \<and>
      vget (n_control_points s') 0 = 3 \<and> vget (box_length s') 0 = 2 \<and>
      item (array_mu s' 0) (2, 0, 0) = - (1 / 2) \<and>
      item (array_mu s' 1) (2, 1, 0) = 2 \<and>
      item (array_mu s' 1) (1, 1, 0) = 4)"
proof -
  have ax: "(0::int) \<in> {0, 1, 2}" by simp
  have z: "\<forall>idx. in_shape (shape (array_mu lattice_2x2x1 0)) idx \<longrightarrow>
              item (array_mu lattice_2x2x1 0)
                (vset idx 0 (nat (vget (n_control_points lattice_2x2x1) 0) - 1)) = 0"
    by (auto simp: lattice_2x2x1_def array_mu_def in_shape_def item_def less_Suc_eq numeral_2_eq_2)
  from reflect_law[OF lattice_2x2x1_valid ax z] obtain s' where
    r: "reflect lattice_2x2x1 0 = (Returned, s')"
    and n: "vget (n_control_points s') 0 = 2 * vget (n_control_points lattice_2x2x1) 0 - 1"
    and l: "vget (box_length s') 0 = 2 * vget (box_length lattice_2x2x1) 0"
    and w: "\<And>b idx. b \<in> {0, 1, 2} \<Longrightarrow> in_shape (shape (array_mu lattice_2x2x1 b)) idx \<Longrightarrow>
              item (array_mu s' b) idx = item (array_mu lattice_2x2x1 b) idx \<and>
              (\<forall>m. 1 \<le> m \<and> m \<le> nat (vget (n_control_points lattice_2x2x1) 0) - 1 \<longrightarrow>
                 item (array_mu s' b)
                   (vset idx 0 (nat (vget (n_control_points lattice_2x2x1) 0) - 1 + m)) =
                 (if b = 0
                  then - item (array_mu lattice_2x2x1 b)
                           (vset idx 0 (nat (vget (n_control_points lattice_2x2x1) 0) - 1 - m))
                  else item (array_mu lattice_2x2x1 b)
                         (vset idx 0 (nat (vget (n_control_points lattice_2x2x1) 0) - 1 - m))))"
    by blast
  have "item (array_mu s' 0) (2, 0, 0) = - (1 / 2)"
    using w[of 0 "(0, 0, 0)", THEN conjunct2, rule_format, of 1]
    by (simp add: lattice_2x2x1_def array_mu_def in_shape_def item_def numeral_2_eq_2)
  moreover have "item (array_mu s' 1) (2, 1, 0) = 2"
    using w[of 1 "(0, 1, 0)", THEN conjunct2, rule_format, of 1]
    by (simp add: lattice_2x2x1_def array_mu_def in_shape_def item_def numeral_2_eq_2)
  moreover have "item (array_mu s' 1) (1, 1, 0) = 4"
    using w[of 1 "(1, 1, 0)", THEN conjunct1]
    by (simp add: lattice_2x2x1_def array_mu_def in_shape_def item_def numeral_2_eq_2)
  moreover have "vget (n_control_points s') 0 = 3" "vget (box_length s') 0 = 2"
    using n l by (simp_all add: lattice_2x2x1_def)
  ultimately show ?thesis using r lattice_2x2x1_valid by blast
qed

theorem reflect_rejects_witness:
  "reflect lattice_deformed_face 3 = (Raised ValueError, lattice_deformed_face) \<and>
   reflect lattice_deformed_face 0 = (Raised RuntimeError, lattice_deformed_face)"
proof -
  have "(3::int) \<notin> {0, 1, 2}" by simp
  with reflect_rejects[of 3 lattice_deformed_face]
  have a: "reflect lattice_deformed_face 3 = (Raised ValueError, lattice_deformed_face)" by blast
  have "in_shape (shape (array_mu lattice_deformed_face 0)) (1, 1, 0) \<and>
           item (array_mu lattice_deformed_face 0)
             (vset (1, 1, 0) 0 (vget (shape (array_mu lattice_deformed_face 0)) 0 - 1)) \<noteq> 0"
    by (simp add: lattice_deformed_face_def lattice_2x2x1_def array_mu_def in_shape_def item_def)
  moreover have "valid_arr (array_mu lattice_deformed_face 0)"
    by (simp add: lattice_deformed_face_def lattice_2x2x1_def array_mu_def valid_arr_def)
  ultimately have "(0::int) \<in> {0, 1, 2} \<and> valid_arr (array_mu lattice_deformed_face 0) \<and>
    (\<exists>idx. in_shape (shape (array_mu lattice_deformed_face 0)) idx \<and>
           item (array_mu lattice_deformed_face 0)
             (vset idx 0 (vget (shape (array_mu lattice_deformed_face 0)) 0 - 1)) \<noteq> 0)"
    by blast
  with reflect_rejects[of 0 lattice_deformed_face]
  have "reflect lattice_deformed_face 0 = (Raised RuntimeError, lattice_deformed_face)" by blast
  with a show ?thesis by blast
qed

section \<open>Properties of the mappings\<close>







section \<open>Properties of the file codec\<close>

lemma write_weights_section:
  "(\<forall>idx \<in> set idxs. in_shape (shape mu) idx) \<Longrightarrow>
   write_weights fio mu idxs (out, off) =
     Inr (out @ weight_section fio mu off idxs, if idxs = [] then off else 13)"
  by (induction idxs arbitrary: out off) (auto simp: getitem3_def)

lemma set_grid_indices:
  "set (grid_indices n) = {idx. in_shape (shape_of n) idx}"
  by (cases n) (force simp: grid_indices_def shape_of_def in_shape_def)

lemma length_concat_const: "(\<And>x. x \<in> set xs \<Longrightarrow> length (f x) = c) \<Longrightarrow> length (concat (map f xs)) = length xs * c"
  by (induction xs) auto

lemma length_grid_indices:
  "length (grid_indices (n0, n1, n2)) = nat n0 * nat n1 * nat n2"
  by (simp add: grid_indices_def length_concat_const)



lemma output_text_cover:
  assumes "weights_cover s"
  shows "output_text fio s =
     Inr (text_before_x fio s @
          weight_section fio (array_mu_x s) 1 (grid_indices (n_control_points s)) @
          text_before_y @
          weight_section fio (array_mu_y s) 1 (grid_indices (n_control_points s)) @
          text_before_z @
          weight_section fio (array_mu_z s) 1 (grid_indices (n_control_points s)))"
proof -
  have c: "\<forall>idx \<in> set (grid_indices (n_control_points s)). in_shape (shape (array_mu_x s)) idx"
      "\<forall>idx \<in> set (grid_indices (n_control_points s)). in_shape (shape (array_mu_y s)) idx"
      "\<forall>idx \<in> set (grid_indices (n_control_points s)). in_shape (shape (array_mu_z s)) idx"
    using assms by (auto simp: weights_cover_def set_grid_indices)
  show ?thesis
    by (simp add: output_text_def Let_def write_weights_section[OF c(1)]
        write_weights_section[OF c(2)] write_weights_section[OF c(3)])
qed

lemma valid_store_cover: "valid_store s \<Longrightarrow> weights_cover s"
  by (cases "n_control_points s") (auto simp: valid_store_def weights_cover_def shape_of_def)







lemma valid_arr_update:
  assumes v: "valid_arr mu" and p: "in_shape (shape mu) (i, j, k)"
  shows "valid_arr (mu\<lparr>elems := (elems mu)[i := (elems mu ! i)[j := (elems mu ! i ! j)[k := w]]]\<rparr>)"
proof -
  obtain d0 d1 d2 where sh: "shape mu = (d0, d1, d2)" by (cases "shape mu")
  have b: "i < d0" "j < d1" "k < d2" using p sh by (auto simp: in_shape_def)
  have len: "length (elems mu) = d0"
    and inv: "\<forall>p \<in> set (elems mu). length p = d1 \<and> (\<forall>r \<in> set p. length r = d2)"
    using v sh by (auto simp: valid_arr_def)
  have pi: "elems mu ! i \<in> set (elems mu)" using len b by simp
  then have li: "length (elems mu ! i) = d1" and ri: "\<forall>r \<in> set (elems mu ! i). length r = d2"
    using inv by auto
  have rj: "length (elems mu ! i ! j) = d2" using ri li b by simp
  have new_row: "length ((elems mu ! i)[j := (elems mu ! i ! j)[k := w]]) = d1 \<and>
        (\<forall>r \<in> set ((elems mu ! i)[j := (elems mu ! i ! j)[k := w]]). length r = d2)"
    using li ri rj by (auto dest!: set_update_subset_insert[THEN subsetD])
  show ?thesis
    unfolding valid_arr_def using sh len inv new_row
    by (auto dest!: set_update_subset_insert[THEN subsetD])
qed

lemma item_update:
  assumes v: "valid_arr mu" and p: "in_shape (shape mu) (i, j, k)" and q: "in_shape (shape mu) q"
  shows "item (mu\<lparr>elems := (elems mu)[i := (elems mu ! i)[j := (elems mu ! i ! j)[k := w]]]\<rparr>) q
         = (if q = (i, j, k) then w else item mu q)"
proof -
  obtain d0 d1 d2 where sh: "shape mu = (d0, d1, d2)" by (cases "shape mu")
  obtain a b c where qq: "q = (a, b, c)" by (cases q)
  have b: "i < d0" "j < d1" "k < d2" "a < d0" "b < d1" "c < d2"
    using p q sh qq by (auto simp: in_shape_def)
  have len: "length (elems mu) = d0"
    and inv: "\<forall>p \<in> set (elems mu). length p = d1 \<and> (\<forall>r \<in> set p. length r = d2)"
    using v sh by (auto simp: valid_arr_def)
  have pi: "elems mu ! i \<in> set (elems mu)" using len b by simp
  then have li: "length (elems mu ! i) = d1" and ri: "\<forall>r \<in> set (elems mu ! i). length r = d2"
    using inv by auto
  have rj: "length (elems mu ! i ! j) = d2" using ri li b by simp
  show ?thesis
    using b len li rj unfolding qq by (auto simp: item_def nth_list_update)
qed



lemma np_zeros_props:
  assumes "np_zeros n = Inr z"
  shows "shape z = shape_of n \<and> valid_arr z \<and> (\<forall>q. in_shape (shape_of n) q \<longrightarrow> item z q = 0)"
  using assms
  by (cases n) (auto simp: np_zeros_def shape_of_def valid_arr_def in_shape_def item_def
      split: if_splits)















section \<open>The round trip through the file\<close>

lemma is_space_nl [simp]: "is_space nl" by (simp add: is_space_def nl_def)
lemma is_space_blank [simp]: "is_space (CHR '' '')" by (simp add: is_space_def)

lemma rstrip_trimmed: "s \<noteq> [] \<Longrightarrow> \<not> is_space (last s) \<Longrightarrow> rstrip s = s"
  by (cases s rule: rev_cases) (auto simp: rstrip_def)

lemma lstrip_trimmed: "s \<noteq> [] \<Longrightarrow> \<not> is_space (hd s) \<Longrightarrow> lstrip s = s"
  by (cases s) (auto simp: lstrip_def)

lemma strip_trimmed: "trimmed s \<Longrightarrow> strip s = s"
  by (simp add: strip_def trimmed_def lstrip_trimmed rstrip_trimmed)

lemma lstrip_spaces: "\<forall>c \<in> set ws. is_space c \<Longrightarrow> lstrip (ws @ s) = lstrip s"
  by (induction ws) (auto simp: lstrip_def)

lemma rstrip_spaces: "\<forall>c \<in> set ws. is_space c \<Longrightarrow> rstrip (s @ ws) = rstrip s"
  by (induction ws rule: rev_induct) (auto simp: rstrip_def)

lemma strip_pad: "trimmed s \<Longrightarrow> \<forall>c \<in> set ws. is_space c \<Longrightarrow> strip (ws @ s) = s"
  by (simp add: strip_def lstrip_spaces trimmed_def lstrip_trimmed rstrip_trimmed)

lemma strip_empty [simp]: "strip [] = []"
  by (simp add: strip_def lstrip_def rstrip_def)

lemma token_trimmed: "token t \<Longrightarrow> trimmed t"
  by (auto simp: token_def trimmed_def)

lemma trimmed_append: "trimmed a \<Longrightarrow> trimmed b \<Longrightarrow> trimmed (a @ m @ b)"
  by (auto simp: trimmed_def)

lemma trimmed_hd_append: "trimmed (a @ b) \<Longrightarrow> a \<noteq> [] \<Longrightarrow> hd (a @ b) = hd a"
  by simp

lemma tokens_no_space: "\<forall>c \<in> set w. \<not> is_space c \<Longrightarrow> tokens cur (w @ r) = tokens (rev w @ cur) r"
  by (induction w arbitrary: cur) auto

lemma tokens_token_end: "token w \<Longrightarrow> tokens [] w = [w]"
  using tokens_no_space[of w "[]" "[]"] by (auto simp: token_def)

lemma tokens_token_sep:
  "token w \<Longrightarrow> tokens [] (w @ CHR '' '' # r) = w # tokens [] r"
  using tokens_no_space[of w "[]" "CHR '' '' # r"] by (auto simp: token_def)

lemma tokens_space: "tokens [] (CHR '' '' # r) = tokens [] r"
  by simp

lemma py_split_entry:
  assumes "token a" "token b" "token c" "token d"
  shows "py_split (a @ ''   '' @ b @ ''   '' @ c @ ''   '' @ d) = [a, b, c, d]"
  using assms by (simp add: py_split_def tokens_token_sep tokens_token_end)

lemma split_on_no_sep: "c \<notin> set s \<Longrightarrow> split_on c s = [s]"
  by (induction s) auto

lemma split_on_append: "c \<notin> set s \<Longrightarrow> split_on c (s @ c # r) = s # split_on c r"
  by (induction s) auto

lemma split_on_join:
  "ls \<noteq> [] \<Longrightarrow> \<forall>l \<in> set ls. c \<notin> set l \<Longrightarrow> split_on c (join_on c ls) = ls"
proof (induction c ls rule: join_on.induct)
  case (1 c) then show ?case by simp
next
  case (2 c l) then show ?case by (simp add: split_on_no_sep)
next
  case (3 c l m ls)
  then show ?case by (simp add: split_on_append)
qed

lemma split_on_unlines:
  "\<forall>l \<in> set ls. nl \<notin> set l \<Longrightarrow> split_on nl (unlines ls) = ls @ [[]]"
  by (induction ls) (auto simp: unlines_def split_on_append)

lemma file_lines_unlines:
  "\<forall>l \<in> set ls. nl \<notin> set l \<Longrightarrow> file_lines (unlines ls) = ls"
  by (simp add: file_lines_def split_on_unlines)

lemma digit_val_digit_char: "d < 10 \<Longrightarrow> digit_val (digit_char d) = Some d"
proof -
  assume "d < 10"
  then consider "d = 0" | "d = 1" | "d = 2" | "d = 3" | "d = 4" | "d = 5" | "d = 6" | "d = 7"
    | "d = 8" | "d = 9" by force
  then show ?thesis
    by cases (simp_all add: digit_val_def digit_char_def upt_conv_Cons)
qed

lemma is_digit_digit_char: "d < 10 \<Longrightarrow> is_digit (digit_char d)"
  by (simp add: is_digit_def digit_val_digit_char)

lemma is_digit_not_space: "is_digit c \<Longrightarrow> \<not> is_space c"
  by (auto simp: is_digit_def digit_val_def is_space_def)

lemma is_digit_not_special:
  "is_digit c \<Longrightarrow> c \<noteq> CHR ''#'' \<and> c \<noteq> CHR '';'' \<and> c \<noteq> CHR ''['' \<and> c \<noteq> CHR ''_'' \<and>
     c \<noteq> CHR ''-'' \<and> c \<noteq> CHR ''+'' \<and> c \<noteq> nl"
  by (auto simp: is_digit_def digit_val_def nl_def)

lemma str_nat_small: "n < 10 \<Longrightarrow> str_nat n = [digit_char n]"
  by (subst str_nat.simps) simp

lemma str_nat_big: "\<not> n < 10 \<Longrightarrow> str_nat n = str_nat (n div 10) @ [digit_char (n mod 10)]"
  by (subst str_nat.simps) simp

lemma str_nat_digits: "str_nat n \<noteq> [] \<and> (\<forall>c \<in> set (str_nat n). is_digit c)"
proof (induction n rule: str_nat.induct)
  case (1 n)
  show ?case
  proof (cases "n < 10")
    case True
    then show ?thesis by (simp add: str_nat_small is_digit_digit_char)
  next
    case False
    with 1 show ?thesis
      by (simp add: str_nat_big is_digit_digit_char)
  qed
qed

lemma int_body_digits:
  "\<forall>c \<in> set ds. is_digit c \<Longrightarrow>
   int_body acc ds = Some (foldl (\<lambda>a c. 10 * a + the (digit_val c)) acc ds)"
proof (induction ds arbitrary: acc)
  case Nil then show ?case by simp
next
  case (Cons c ds)
  then obtain v where v: "digit_val c = Some v" by (auto simp: is_digit_def)
  have "c \<noteq> CHR ''_''" using Cons.prems is_digit_not_special[of c] by simp
  then show ?case using Cons v by simp
qed

lemma foldl_str_nat:
  "foldl (\<lambda>a c. 10 * a + the (digit_val c)) acc (str_nat n) = acc * 10 ^ length (str_nat n) + n"
proof (induction n rule: str_nat.induct)
  case (1 n)
  show ?case
  proof (cases "n < 10")
    case True
    then show ?thesis by (simp add: str_nat_small digit_val_digit_char)
  next
    case False
    then have e: "str_nat n = str_nat (n div 10) @ [digit_char (n mod 10)]"
      by (rule str_nat_big)
    show ?thesis
      unfolding e using 1[OF False] by (simp add: digit_val_digit_char algebra_simps)
  qed
qed

lemma unsigned_int_str_nat: "unsigned_int (str_nat n) = Some n"
proof -
  have d: "str_nat n \<noteq> []" "\<forall>c \<in> set (str_nat n). is_digit c" using str_nat_digits by auto
  then obtain c cs where c: "str_nat n = c # cs" by (cases "str_nat n") auto
  then have "is_digit c" using d by auto
  then show ?thesis
    using int_body_digits[OF d(2), of 0] foldl_str_nat[of 0 n]
    by (simp add: unsigned_int_def c[symmetric]) (simp add: c)
qed

lemma token_str_nat: "token (str_nat n)"
  using str_nat_digits[of n] is_digit_not_space by (auto simp: token_def)

lemma token_str_int: "token (str_int i)"
  using token_str_nat by (auto simp: str_int_def token_def is_space_def)

lemma py_int_str_int: "py_int (str_int i) = Some i"
proof -
  have s: "strip (str_int i) = str_int i"
    by (rule strip_trimmed[OF token_trimmed[OF token_str_int]])
  show ?thesis
  proof (cases "i < 0")
    case True
    then show ?thesis
      unfolding py_int_def s by (simp add: str_int_def unsigned_int_str_nat)
  next
    case False
    obtain c cs where c: "str_nat (nat i) = c # cs"
      using str_nat_digits[of "nat i"] by (cases "str_nat (nat i)") auto
    then have "is_digit c" using str_nat_digits[of "nat i"] by auto
    then have "c \<noteq> CHR ''-''" "c \<noteq> CHR ''+''" using is_digit_not_special by auto
    then show ?thesis
      unfolding py_int_def s using False unsigned_int_str_nat[of "nat i"]
      by (simp add: str_int_def c)
  qed
qed

lemma hd_str_int_nat: "is_digit (hd (str_int (int i)))"
  using str_nat_digits[of i] by (cases "str_nat i") (auto simp: str_int_def)

lemma nl_notin_token: "token t \<Longrightarrow> nl \<notin> set t"
  by (auto simp: token_def)

lemma text_before_x_lines:
  "text_before_x fio s = unlines (head_lines fio s) @ ''parameter x:''"
  by (simp add: text_before_x_def head_lines_def unlines_def nl_def)

lemma weight_line_entry:
  "weight_line fio off idx (item mu idx) = replicate off (CHR '' '') @ entry_text fio mu idx @ [nl]"
  by (cases idx) (simp add: weight_line_def entry_text_def nl_def)

lemma weight_section_13:
  "weight_section fio mu 13 idxs =
     unlines (map (\<lambda>v. replicate 13 (CHR '' '') @ v) (map (entry_text fio mu) idxs))"
  by (induction idxs) (simp_all add: unlines_def weight_line_entry)

lemma unlines_append: "unlines (a @ b) = unlines a @ unlines b"
  by (simp add: unlines_def)

lemma key_section:
  "idxs \<noteq> [] \<Longrightarrow>
   key @ CHR '':'' # weight_section fio mu 1 idxs =
     unlines (section_lines key (map (entry_text fio mu) idxs))"
  by (cases idxs)
     (simp_all add: section_lines_def weight_line_entry weight_section_13 unlines_def)

lemma text_before_y_lines:
  "text_before_y = unlines [[], comment_y] @ ''parameter y:''"
  by (simp add: text_before_y_def unlines_def nl_def comment_y_def)

lemma text_before_z_lines:
  "text_before_z = unlines [[], comment_z] @ ''parameter z:''"
  by (simp add: text_before_z_def unlines_def nl_def comment_z_def)

lemma grid_indices_nonempty:
  assumes "valid_store s" shows "grid_indices (n_control_points s) \<noteq> []"
proof -
  obtain n0 n1 n2 where n: "n_control_points s = (n0, n1, n2)" by (cases "n_control_points s")
  have "0 < nat n0 * nat n1 * nat n2" using assms n by (auto simp: valid_store_def)
  then have "length (grid_indices (n_control_points s)) \<noteq> 0"
    unfolding n length_grid_indices by simp
  then show ?thesis by auto
qed

lemma output_text_lines:
  assumes "valid_store s"
  shows "output_text fio s = Inr (unlines (all_lines fio s))"
proof -
  note ne = grid_indices_nonempty[OF assms]
  have x: "''parameter x:'' @ weight_section fio (array_mu_x s) 1 (grid_indices (n_control_points s))
      = unlines (section_lines ''parameter x'' (map (entry_text fio (array_mu_x s)) (grid_indices (n_control_points s))))"
    using key_section[OF ne, of "''parameter x''" fio "array_mu_x s"] by simp
  have y: "''parameter y:'' @ weight_section fio (array_mu_y s) 1 (grid_indices (n_control_points s))
      = unlines (section_lines ''parameter y'' (map (entry_text fio (array_mu_y s)) (grid_indices (n_control_points s))))"
    using key_section[OF ne, of "''parameter y''" fio "array_mu_y s"] by simp
  have z: "''parameter z:'' @ weight_section fio (array_mu_z s) 1 (grid_indices (n_control_points s))
      = unlines (section_lines ''parameter z'' (map (entry_text fio (array_mu_z s)) (grid_indices (n_control_points s))))"
    using key_section[OF ne, of "''parameter z''" fio "array_mu_z s"] by simp
  have "output_text fio s =
     Inr (unlines (head_lines fio s) @
          (''parameter x:'' @ weight_section fio (array_mu_x s) 1 (grid_indices (n_control_points s))) @
          unlines [[], comment_y] @
          (''parameter y:'' @ weight_section fio (array_mu_y s) 1 (grid_indices (n_control_points s))) @
          unlines [[], comment_z] @
          (''parameter z:'' @ weight_section fio (array_mu_z s) 1 (grid_indices (n_control_points s))))"
    unfolding output_text_cover[OF valid_store_cover[OF assms]] text_before_x_lines
      text_before_y_lines text_before_z_lines
    by (simp only: append_assoc)
  also have "\<dots> = Inr (unlines (all_lines fio s))"
    unfolding x y z by (simp only: all_lines_def Let_def unlines_append)
  finally show ?thesis .
qed

lemma rstrip_keeps_head: "\<not> is_space c \<Longrightarrow> \<exists>t. rstrip (c # r) = c # t"
proof -
  assume c: "\<not> is_space c"
  have "dropWhile is_space (rev r @ [c]) = dropWhile is_space (rev r) @ [c]"
    using c by (simp add: dropWhile_append3)
  then show ?thesis by (simp add: rstrip_def)
qed

lemma strip_keeps_head: "\<not> is_space c \<Longrightarrow> \<exists>t. strip (c # r) = c # t"
  using rstrip_keeps_head[of c r] by (simp add: strip_def lstrip_def)

lemma read_line_comment: "read_line p (CHR ''#'' # r) = Inr p"
proof -
  have "\<not> is_space (CHR ''#'')" by (simp add: is_space_def)
  from strip_keeps_head[OF this, of r] obtain t where "strip (CHR ''#'' # r) = CHR ''#'' # t" ..
  then have "is_comment (CHR ''#'' # r)" by (simp add: is_comment_def)
  then show ?thesis by (simp add: read_line_def split: option.splits)
qed

lemma read_line_blank:
  "read_line p [] =
     (case open_option p of Some (k, vs) \<Rightarrow> Inr (cur_put p k (vs @ [[]])) | None \<Rightarrow> Inr p)"
  by (simp add: read_line_def is_comment_def split: option.splits)

lemma trimmed_not_comment:
  "trimmed v \<Longrightarrow> hd v \<noteq> CHR ''#'' \<Longrightarrow> hd v \<noteq> CHR '';'' \<Longrightarrow>
   \<forall>c \<in> set ws. is_space c \<Longrightarrow> \<not> is_comment (ws @ v)"
  by (cases v) (auto simp: is_comment_def strip_pad trimmed_def)

lemma indent_pad:
  "trimmed v \<Longrightarrow> \<forall>c \<in> set ws. is_space c \<Longrightarrow> length (takeWhile is_space (ws @ v)) = length ws"
  by (cases v) (auto simp: trimmed_def takeWhile_append2)

lemma read_line_continuation:
  assumes v: "trimmed v" and h: "hd v \<noteq> CHR ''#''" "hd v \<noteq> CHR '';''"
    and o: "open_option p = Some (k, vs)" and i: "p_indent p < length ws"
    and ws: "\<forall>c \<in> set ws. is_space c"
  shows "read_line p (ws @ v) = Inr (cur_put p k (vs @ [v]))"
proof -
  have "v \<noteq> []" using v by (simp add: trimmed_def)
  then show ?thesis
    using trimmed_not_comment[OF v h ws] strip_pad[OF v ws] indent_pad[OF v ws] o i
    by (simp add: read_line_def Let_def)
qed

lemma opt_split_key:
  "CHR '':'' \<notin> set k \<Longrightarrow> CHR ''='' \<notin> set k \<Longrightarrow>
   opt_split acc (k @ CHR '':'' # r) = Some (rstrip (rev acc @ k), r)"
  by (induction k arbitrary: acc) auto

lemma cur_dict_frame [simp]:
  "cur_dict (p\<lparr>p_indent := i\<rparr>) = cur_dict p"
  "cur_dict (p\<lparr>p_optname := on\<rparr>) = cur_dict p"
  "cur_dict (p\<lparr>p_error := e\<rparr>) = cur_dict p"
  by (simp_all add: cur_dict_def split: cursor.splits)

lemma read_line_option:
  assumes k: "key_ok k" and v: "trimmed v" and c: "p_cursect p \<noteq> NoSect"
    and d: "cur_dict p (lower k) = None"
  shows "read_line p (k @ CHR '':'' # CHR '' '' # v) =
         Inr (cur_put (p\<lparr>p_indent := 0, p_optname := Some (lower k)\<rparr>) (lower k) [v])"
proof -
  let ?line = "k @ CHR '':'' # CHR '' '' # v"
  have kt: "trimmed k" and nd: "CHR '':'' \<notin> set k" "CHR ''='' \<notin> set k"
    and hk: "hd k \<noteq> CHR ''#''" "hd k \<noteq> CHR '';''" "hd k \<noteq> CHR ''[''"
    using k by (auto simp: key_ok_def)
  have kne: "k \<noteq> []" using kt by (simp add: trimmed_def)
  have lt: "trimmed ?line" using kt v by (auto simp: trimmed_def)
  have hl: "hd ?line = hd k" using kne by simp
  have st: "strip ?line = ?line" by (rule strip_trimmed[OF lt])
  have nc: "\<not> is_comment ?line"
    using trimmed_not_comment[OF lt, of "[]"] hl hk by simp
  have ind: "length (takeWhile is_space ?line) = 0"
    using indent_pad[OF lt, of "[]"] by simp
  have sh: "sect_header ?line = None"
    using hl hk kne by (cases k) (auto simp: sect_header_def)
  have om: "opt_match ?line = Some (k, CHR '' '' # v)"
    using opt_split_key[OF nd, of "[]" "CHR '' '' # v"] rstrip_trimmed[of k] kt
    by (simp add: opt_match_def trimmed_def)
  have sv: "strip (CHR '' '' # v) = v"
    using strip_pad[OF v, of "[CHR '' '']"] by simp
  have rk: "rstrip k = k" using rstrip_trimmed[of k] kt by (simp add: trimmed_def)
  have ne: "?line \<noteq> []" using kne by simp
  have cd: "cur_dict (p\<lparr>p_indent := 0\<rparr>) (lower k) = None"
    using d by simp
  show ?thesis
    unfolding read_line_def Let_def st ind
    using nc ne sh om sv rk kne c cd
    by (simp del: append_is_Nil_conv)
qed

lemma read_line_header:
  assumes n: "trimmed name" "CHR '']'' \<notin> set name" "name \<noteq> ''DEFAULT''"
    and s: "p_sections p name = None"
  shows "read_line p (CHR ''['' # name @ '']'') =
         Inr (p\<lparr>p_indent := 0, p_sections := (p_sections p)(name \<mapsto> Map.empty),
                p_cursect := Sect name, p_optname := None\<rparr>)"
proof -
  let ?line = "CHR ''['' # name @ '']''"
  have nne: "name \<noteq> []" using n by (simp add: trimmed_def)
  have lt: "trimmed ?line" by (auto simp: trimmed_def is_space_def)
  have st: "strip ?line = ?line" by (rule strip_trimmed[OF lt])
  have nc: "\<not> is_comment ?line" by (simp add: is_comment_def st)
  have ind: "length (takeWhile is_space ?line) = 0" by (simp add: is_space_def)
  have sh: "sect_header ?line = Some name"
    using n nne by (simp add: sect_header_def dropWhile_append3 Let_def)
  show ?thesis
    unfolding read_line_def Let_def st ind using nc sh s n by simp
qed

lemma key_facts:
  "key_ok ''n control points x'' \<and> lower ''n control points x'' = ''n control points x''"
  "key_ok ''n control points y'' \<and> lower ''n control points y'' = ''n control points y''"
  "key_ok ''n control points z'' \<and> lower ''n control points z'' = ''n control points z''"
  "key_ok ''box length x'' \<and> lower ''box length x'' = ''box length x''"
  "key_ok ''box length y'' \<and> lower ''box length y'' = ''box length y''"
  "key_ok ''box length z'' \<and> lower ''box length z'' = ''box length z''"
  "key_ok ''box origin x'' \<and> lower ''box origin x'' = ''box origin x''"
  "key_ok ''box origin y'' \<and> lower ''box origin y'' = ''box origin y''"
  "key_ok ''box origin z'' \<and> lower ''box origin z'' = ''box origin z''"
  "key_ok ''rotation angle x'' \<and> lower ''rotation angle x'' = ''rotation angle x''"
  "key_ok ''rotation angle y'' \<and> lower ''rotation angle y'' = ''rotation angle y''"
  "key_ok ''rotation angle z'' \<and> lower ''rotation angle z'' = ''rotation angle z''"
  "key_ok ''parameter x'' \<and> lower ''parameter x'' = ''parameter x''"
  "key_ok ''parameter y'' \<and> lower ''parameter y'' = ''parameter y''"
  "key_ok ''parameter z'' \<and> lower ''parameter z'' = ''parameter z''"
  by (simp_all add: key_ok_def trimmed_def is_space_def lower_def lower_char_def)

lemma option_line:
  assumes "key_ok k \<and> lower k = k" and "trimmed v" and "p_cursect p \<noteq> NoSect"
    and "cur_dict p k = None"
  shows "read_line p (k @ CHR '':'' # CHR '' '' # v) =
         Inr (cur_put (p\<lparr>p_indent := 0, p_optname := Some k\<rparr>) k [v])"
  using read_line_option[of k v p] assms by simp

lemmas option_lines =
  option_line[OF key_facts(1), simplified] option_line[OF key_facts(2), simplified]
  option_line[OF key_facts(3), simplified] option_line[OF key_facts(4), simplified]
  option_line[OF key_facts(5), simplified] option_line[OF key_facts(6), simplified]
  option_line[OF key_facts(7), simplified] option_line[OF key_facts(8), simplified]
  option_line[OF key_facts(9), simplified] option_line[OF key_facts(10), simplified]
  option_line[OF key_facts(11), simplified] option_line[OF key_facts(12), simplified]
  option_line[OF key_facts(13), simplified] option_line[OF key_facts(14), simplified]
  option_line[OF key_facts(15), simplified]

lemma header_box_info:
  "p_sections p ''Box info'' = None \<Longrightarrow>
   read_line p ''[Box info]'' =
     Inr (p\<lparr>p_indent := 0, p_sections := (p_sections p)(''Box info'' \<mapsto> Map.empty),
            p_cursect := Sect ''Box info'', p_optname := None\<rparr>)"
  using read_line_header[of "''Box info''" p] by (simp add: trimmed_def is_space_def)

lemma header_weights:
  "p_sections p ''Parameters weights'' = None \<Longrightarrow>
   read_line p ''[Parameters weights]'' =
     Inr (p\<lparr>p_indent := 0, p_sections := (p_sections p)(''Parameters weights'' \<mapsto> Map.empty),
            p_cursect := Sect ''Parameters weights'', p_optname := None\<rparr>)"
  using read_line_header[of "''Parameters weights''" p] by (simp add: trimmed_def is_space_def)

lemma read_lines_append:
  "read_lines p (a @ b) = (case read_lines p a of Inl e \<Rightarrow> Inl e | Inr p' \<Rightarrow> read_lines p' b)"
  by (induction a arbitrary: p) (auto split: sum.splits)

lemma vec_ok_trimmed:
  assumes "vec_ok fio v"
  shows "trimmed (str_float fio (vget v 0))" "trimmed (str_float fio (vget v 1))"
    "trimmed (str_float fio (vget v 2))"
  using assms by (cases v; auto simp: vec_ok_def float_text_ok_def token_trimmed)+

lemma trimmed_str_int: "trimmed (str_int i)"
  by (rule token_trimmed[OF token_str_int])

lemma head_parse:
  assumes "vec_ok fio (box_length s)" "vec_ok fio (box_origin s)" "vec_ok fio (rot_angle s)"
  shows "read_lines parser_init (head_lines fio s) = Inr (head_parser fio s)"
  using vec_ok_trimmed[OF assms(1)] vec_ok_trimmed[OF assms(2)] vec_ok_trimmed[OF assms(3)]
  by (simp add: head_lines_def head_parser_def box_info_dict_def parser_init_def
      read_line_comment read_line_blank header_box_info header_weights
      option_lines open_option_def cur_dict_def cur_put_def trimmed_str_int)

lemma cont_lines:
  assumes "p_cursect q = Sect name" "p_optname q = Some k" "k \<noteq> []"
    "p_sections q name = Some d" "d k = Some vs" "p_indent q < 13"
    "\<forall>e \<in> set es. trimmed e \<and> hd e \<noteq> CHR ''#'' \<and> hd e \<noteq> CHR '';''"
  shows "read_lines q (map (\<lambda>v. replicate 13 (CHR '' '') @ v) es) =
         Inr (q\<lparr>p_sections := (p_sections q)(name \<mapsto> d(k \<mapsto> vs @ es))\<rparr>)"
  using assms
proof (induction es arbitrary: q d vs)
  case Nil
  have "d(k \<mapsto> vs) = d" using Nil by (simp add: map_upd_triv)
  moreover have "(p_sections q)(name \<mapsto> d) = p_sections q" using Nil by (simp add: map_upd_triv)
  ultimately show ?case by simp
next
  case (Cons e es)
  have oo: "open_option q = Some (k, vs)"
    using Cons.prems by (simp add: open_option_def cur_dict_def)
  have e: "trimmed e" "hd e \<noteq> CHR ''#''" "hd e \<noteq> CHR '';''" using Cons.prems by auto
  define q' where "q' = q\<lparr>p_sections := (p_sections q)(name \<mapsto> d(k \<mapsto> vs @ [e]))\<rparr>"
  have cp: "cur_put q k (vs @ [e]) = q'"
    using Cons.prems by (simp add: cur_put_def cur_dict_def q'_def)
  have step: "read_line q (replicate 13 (CHR '' '') @ e) = Inr q'"
    using read_line_continuation[OF e oo, of "replicate 13 (CHR '' '')"] Cons.prems(6) cp
    by simp
  have ih: "read_lines q' (map (\<lambda>v. replicate 13 (CHR '' '') @ v) es) =
         Inr (q'\<lparr>p_sections := (p_sections q')(name \<mapsto> (d(k \<mapsto> vs @ [e]))(k \<mapsto> (vs @ [e]) @ es))\<rparr>)"
    by (rule Cons.IH) (use Cons.prems in \<open>auto simp: q'_def\<close>)
  have "read_lines q (map (\<lambda>v. replicate 13 (CHR '' '') @ v) (e # es)) =
        read_lines q' (map (\<lambda>v. replicate 13 (CHR '' '') @ v) es)"
    using step by simp
  also note ih
  also have "q'\<lparr>p_sections := (p_sections q')(name \<mapsto> (d(k \<mapsto> vs @ [e]))(k \<mapsto> (vs @ [e]) @ es))\<rparr>
      = q\<lparr>p_sections := (p_sections q)(name \<mapsto> d(k \<mapsto> vs @ e # es))\<rparr>"
    by (simp add: q'_def)
  finally show ?case .
qed

lemma section_parse:
  assumes k: "key_ok k \<and> lower k = k" and es: "es \<noteq> []"
    and t: "\<forall>e \<in> set es. trimmed e \<and> hd e \<noteq> CHR ''#'' \<and> hd e \<noteq> CHR '';''"
    and c: "p_cursect p = Sect name" and d: "p_sections p name = Some d" and n: "d k = None"
  shows "read_lines p (section_lines k es) =
         Inr (p\<lparr>p_indent := 0, p_optname := Some k,
                p_sections := (p_sections p)(name \<mapsto> d(k \<mapsto> es))\<rparr>)"
proof -
  obtain e rest where er: "es = e # rest" using es by (cases es) auto
  have kne: "k \<noteq> []" using k by (auto simp: key_ok_def trimmed_def)
  define q where "q = p\<lparr>p_indent := 0, p_optname := Some k,
                p_sections := (p_sections p)(name \<mapsto> d(k \<mapsto> [e]))\<rparr>"
  have cd: "cur_dict p k = None" using c d n by (simp add: cur_dict_def)
  have first: "read_line p (k @ CHR '':'' # CHR '' '' # e) = Inr q"
    using option_line[OF k, of e p] t er c cd d
    by (simp add: cur_put_def cur_dict_def q_def)
  have rest: "read_lines q (map (\<lambda>v. replicate 13 (CHR '' '') @ v) rest) =
         Inr (q\<lparr>p_sections := (p_sections q)(name \<mapsto> (d(k \<mapsto> [e]))(k \<mapsto> [e] @ rest))\<rparr>)"
    by (rule cont_lines) (use t er c kne in \<open>auto simp: q_def\<close>)
  have "read_lines p (section_lines k es) =
        read_lines q (map (\<lambda>v. replicate 13 (CHR '' '') @ v) rest)"
    using first by (simp add: section_lines_def er)
  also note rest
  also have "q\<lparr>p_sections := (p_sections q)(name \<mapsto> (d(k \<mapsto> [e]))(k \<mapsto> [e] @ rest))\<rparr>
      = p\<lparr>p_indent := 0, p_optname := Some k,
                p_sections := (p_sections p)(name \<mapsto> d(k \<mapsto> es))\<rparr>"
    by (simp add: q_def er)
  finally show ?thesis .
qed

lemma blank_after_section:
  assumes "p_cursect q = Sect name" "p_optname q = Some k" "k \<noteq> []"
    "p_sections q name = Some d" "d k = Some vs"
  shows "read_line q [] = Inr (q\<lparr>p_sections := (p_sections q)(name \<mapsto> d(k \<mapsto> vs @ [[]]))\<rparr>)"
  using assms by (simp add: read_line_blank open_option_def cur_dict_def cur_put_def)

lemma join_value_single: "trimmed v \<Longrightarrow> join_value [v] = v"
  by (simp add: join_value_def rstrip_trimmed trimmed_def)

lemma join_value_blank1: "trimmed v \<Longrightarrow> join_value [v, []] = v"
  using rstrip_spaces[of "[nl]" v] by (simp add: join_value_def rstrip_trimmed trimmed_def)

lemma join_value_blank2: "trimmed v \<Longrightarrow> join_value [v, [], []] = v"
  using rstrip_spaces[of "[nl, nl]" v] by (simp add: join_value_def rstrip_trimmed trimmed_def)

lemma join_on_snoc: "es \<noteq> [] \<Longrightarrow> join_on c (es @ [e]) = join_on c es @ c # e"
  by (induction c es rule: join_on.induct) auto

lemma join_on_last:
  "es \<noteq> [] \<Longrightarrow> last es \<noteq> [] \<Longrightarrow> join_on c es \<noteq> [] \<and> last (join_on c es) = last (last es)"
  by (induction c es rule: join_on.induct) auto

lemma join_value_lines:
  assumes "es \<noteq> []" "trimmed (last es)"
  shows "join_value es = join_on nl es" "join_value (es @ [[]]) = join_on nl es"
proof -
  have l: "join_on nl es \<noteq> []" "\<not> is_space (last (join_on nl es))"
    using join_on_last[of es nl] assms by (auto simp: trimmed_def)
  show "join_value es = join_on nl es"
    using l by (simp add: join_value_def rstrip_trimmed)
  show "join_value (es @ [[]]) = join_on nl es"
    using l rstrip_spaces[of "[nl]" "join_on nl es"] assms(1)
    by (simp add: join_value_def join_on_snoc rstrip_trimmed)
qed

lemma read_line_comment_yz: "read_line p comment_y = Inr p" "read_line p comment_z = Inr p"
  by (simp_all add: comment_y_def comment_z_def read_line_comment)

lemma full_parse:
  assumes v: "vec_ok fio (box_length s)" "vec_ok fio (box_origin s)" "vec_ok fio (rot_angle s)"
    and e: "entries_ok ex" "entries_ok ey" "entries_ok ez"
  shows "read_lines parser_init
           (head_lines fio s @ section_lines ''parameter x'' ex @ [[], comment_y] @
            section_lines ''parameter y'' ey @ [[], comment_z] @
            section_lines ''parameter z'' ez) =
         Inr \<lparr>p_sections = [''Box info'' \<mapsto> box_info_dict fio s,
                    ''Parameters weights'' \<mapsto>
                       [''parameter x'' \<mapsto> ex @ [[]], ''parameter y'' \<mapsto> ey @ [[]],
                        ''parameter z'' \<mapsto> ez]],
               p_defaults = Map.empty, p_cursect = Sect ''Parameters weights'',
               p_optname = Some ''parameter z'', p_indent = 0, p_error = False\<rparr>"
proof -
  let ?PW = "''Parameters weights''"
  let ?BI = "[''Box info'' \<mapsto> box_info_dict fio s]"
  define p1 where "p1 = \<lparr>p_sections = ?BI(?PW \<mapsto> [''parameter x'' \<mapsto> ex]),
      p_defaults = Map.empty, p_cursect = Sect ?PW,
      p_optname = Some ''parameter x'', p_indent = 0, p_error = False\<rparr>"
  define p2 where "p2 = \<lparr>p_sections = ?BI(?PW \<mapsto> [''parameter x'' \<mapsto> ex @ [[]]]),
      p_defaults = Map.empty, p_cursect = Sect ?PW,
      p_optname = Some ''parameter x'', p_indent = 0, p_error = False\<rparr>"
  define p3 where "p3 = \<lparr>p_sections = ?BI(?PW \<mapsto> [''parameter x'' \<mapsto> ex @ [[]], ''parameter y'' \<mapsto> ey]),
      p_defaults = Map.empty, p_cursect = Sect ?PW,
      p_optname = Some ''parameter y'', p_indent = 0, p_error = False\<rparr>"
  define p4 where "p4 = \<lparr>p_sections = ?BI(?PW \<mapsto> [''parameter x'' \<mapsto> ex @ [[]], ''parameter y'' \<mapsto> ey @ [[]]]),
      p_defaults = Map.empty, p_cursect = Sect ?PW,
      p_optname = Some ''parameter y'', p_indent = 0, p_error = False\<rparr>"
  define p5 where "p5 = \<lparr>p_sections = ?BI(?PW \<mapsto> [''parameter x'' \<mapsto> ex @ [[]], ''parameter y'' \<mapsto> ey @ [[]], ''parameter z'' \<mapsto> ez]),
      p_defaults = Map.empty, p_cursect = Sect ?PW,
      p_optname = Some ''parameter z'', p_indent = 0, p_error = False\<rparr>"
  have s0: "read_lines parser_init (head_lines fio s) = Inr (head_parser fio s)"
    by (rule head_parse[OF v])
  have s1: "read_lines (head_parser fio s) (section_lines ''parameter x'' ex) = Inr p1"
    using section_parse[OF key_facts(13), of ex "head_parser fio s" ?PW Map.empty] e(1)
    by (simp add: entries_ok_def head_parser_def p1_def)
  have "read_line p1 [] = Inr p2"
    using blank_after_section[of p1 ?PW "''parameter x''" "[''parameter x'' \<mapsto> ex]" ex]
    by (simp add: p1_def p2_def)
  then have s2: "read_lines p1 [[], comment_y] = Inr p2"
    by (simp add: read_line_comment_yz)
  have s3: "read_lines p2 (section_lines ''parameter y'' ey) = Inr p3"
    using section_parse[OF key_facts(14), of ey p2 ?PW "[''parameter x'' \<mapsto> ex @ [[]]]"] e(2)
    by (simp add: entries_ok_def p2_def p3_def)
  have "read_line p3 [] = Inr p4"
    using blank_after_section[of p3 ?PW "''parameter y''"
        "[''parameter x'' \<mapsto> ex @ [[]], ''parameter y'' \<mapsto> ey]" ey]
    by (simp add: p3_def p4_def)
  then have s4: "read_lines p3 [[], comment_z] = Inr p4"
    by (simp add: read_line_comment_yz)
  have s5: "read_lines p4 (section_lines ''parameter z'' ez) = Inr p5"
    using section_parse[OF key_facts(15), of ez p4 ?PW
        "[''parameter x'' \<mapsto> ex @ [[]], ''parameter y'' \<mapsto> ey @ [[]]]"] e(3)
    by (simp add: entries_ok_def p4_def p5_def)
  show ?thesis
    unfolding read_lines_append s0 s1 s2 s3 s4 s5 sum.case
    by (simp add: p5_def)
qed

lemma norm_index_nat: "i < d \<Longrightarrow> norm_index d (int i) = Some i"
  by (simp add: norm_index_def)

lemma norm_index3_nat:
  "in_shape sh (i, j, k) \<Longrightarrow> norm_index3 sh (int i, int j, int k) = Some (i, j, k)"
  by (cases sh) (simp add: norm_index3_def in_shape_def norm_index_nat)

lemma read_entry:
  assumes "in_shape (shape a) (i, j, k)" and f: "float_text_ok fio (item mu (i, j, k))"
  shows "read_weight_line fio a (entry_text fio mu (i, j, k)) =
         Inr (a\<lparr>elems := (elems a)[i := (elems a ! i)[j := (elems a ! i ! j)[k := item mu (i, j, k)]]]\<rparr>)"
proof -
  have t: "token (str_float fio (item mu (i, j, k)))"
    and pf: "py_float fio (str_float fio (item mu (i, j, k))) = Some (item mu (i, j, k))"
    using f by (auto simp: float_text_ok_def)
  have sp: "py_split (entry_text fio mu (i, j, k)) =
      [str_int (int i), str_int (int j), str_int (int k), str_float fio (item mu (i, j, k))]"
    unfolding entry_text_def prod.case
    by (rule py_split_entry[OF token_str_int token_str_int token_str_int t])
  show ?thesis
    unfolding read_weight_line_def Let_def sp
    using pf norm_index3_nat[OF assms(1)]
    by (simp add: py_int_str_int setitem3_def)
qed

lemma read_weights_grid:
  assumes "valid_arr a"
    and "\<forall>idx \<in> set idxs. in_shape (shape a) idx \<and> float_text_ok fio (item mu idx)"
  shows "\<exists>a'. read_weights fio a (map (entry_text fio mu) idxs) = (Returned, a') \<and>
              valid_arr a' \<and> shape a' = shape a \<and>
              (\<forall>q. in_shape (shape a) q \<longrightarrow>
                   item a' q = (if q \<in> set idxs then item mu q else item a q))"
  using assms
proof (induction idxs arbitrary: a)
  case Nil
  then show ?case by simp
next
  case (Cons idx idxs)
  obtain i j k where idx: "idx = (i, j, k)" by (cases idx)
  have p: "in_shape (shape a) (i, j, k)" and f: "float_text_ok fio (item mu (i, j, k))"
    using Cons.prems idx by auto
  define a1 where "a1 = a\<lparr>elems := (elems a)[i := (elems a ! i)[j := (elems a ! i ! j)[k := item mu (i, j, k)]]]\<rparr>"
  have r1: "read_weight_line fio a (entry_text fio mu idx) = Inr a1"
    unfolding idx a1_def by (rule read_entry[OF p f])
  have v1: "valid_arr a1" unfolding a1_def by (rule valid_arr_update[OF Cons.prems(1) p])
  have s1: "shape a1 = shape a" by (simp add: a1_def)
  have i1: "\<And>q. in_shape (shape a) q \<Longrightarrow> item a1 q = (if q = (i, j, k) then item mu (i, j, k) else item a q)"
    unfolding a1_def by (rule item_update[OF Cons.prems(1) p])
  have "\<forall>idx \<in> set idxs. in_shape (shape a1) idx \<and> float_text_ok fio (item mu idx)"
    using Cons.prems s1 by simp
  from Cons.IH[OF v1 this] obtain a' where
    r: "read_weights fio a1 (map (entry_text fio mu) idxs) = (Returned, a')"
    and v: "valid_arr a'" and s: "shape a' = shape a1"
    and it: "\<And>q. in_shape (shape a1) q \<Longrightarrow> item a' q = (if q \<in> set idxs then item mu q else item a1 q)"
    by blast
  have "read_weights fio a (map (entry_text fio mu) (idx # idxs)) = (Returned, a')"
    using r1 r by simp
  moreover have "\<forall>q. in_shape (shape a) q \<longrightarrow>
                   item a' q = (if q \<in> set (idx # idxs) then item mu q else item a q)"
    using it i1 s1 idx by auto
  ultimately show ?case using v s s1 by auto
qed

lemma arr_ext:
  assumes va: "valid_arr a" and vb: "valid_arr b" and sh: "shape a = shape b"
    and it: "\<And>q. in_shape (shape a) q \<Longrightarrow> item a q = item b q"
  shows "a = b"
proof -
  obtain d0 d1 d2 where s: "shape a = (d0, d1, d2)" by (cases "shape a")
  have sb: "shape b = (d0, d1, d2)" using s sh by simp
  have la: "length (elems a) = d0" and ia: "\<forall>p \<in> set (elems a). length p = d1 \<and> (\<forall>r \<in> set p. length r = d2)"
    using va s by (auto simp: valid_arr_def)
  have lb: "length (elems b) = d0" and ib: "\<forall>p \<in> set (elems b). length p = d1 \<and> (\<forall>r \<in> set p. length r = d2)"
    using vb sb by (auto simp: valid_arr_def)
  have "elems a = elems b"
  proof (rule nth_equalityI)
    show "length (elems a) = length (elems b)" using la lb by simp
    fix i assume i: "i < length (elems a)"
    have ra: "length (elems a ! i) = d1" "\<forall>r \<in> set (elems a ! i). length r = d2"
      using ia i by auto
    have rb: "length (elems b ! i) = d1" "\<forall>r \<in> set (elems b ! i). length r = d2"
      using ib i la lb by auto
    show "elems a ! i = elems b ! i"
    proof (rule nth_equalityI)
      show "length (elems a ! i) = length (elems b ! i)" using ra rb by simp
      fix j assume j: "j < length (elems a ! i)"
      have ca: "length (elems a ! i ! j) = d2" using ra j by auto
      have cb: "length (elems b ! i ! j) = d2" using rb ra j by auto
      show "elems a ! i ! j = elems b ! i ! j"
      proof (rule nth_equalityI)
        show "length (elems a ! i ! j) = length (elems b ! i ! j)" using ca cb by simp
        fix k assume k: "k < length (elems a ! i ! j)"
        have "in_shape (shape a) (i, j, k)" using i j k la ra ca s by (simp add: in_shape_def)
        from it[OF this] show "elems a ! i ! j ! k = elems b ! i ! j ! k" by (simp add: item_def)
      qed
    qed
  qed
  then show ?thesis using sh by simp
qed

lemma item_in_concat:
  assumes v: "valid_arr mu" and p: "in_shape (shape mu) idx"
  shows "item mu idx \<in> set (concat (concat (elems mu)))"
proof -
  obtain d0 d1 d2 where s: "shape mu = (d0, d1, d2)" by (cases "shape mu")
  obtain i j k where idx: "idx = (i, j, k)" by (cases idx)
  have b: "i < d0" "j < d1" "k < d2" using p s idx by (auto simp: in_shape_def)
  have la: "length (elems mu) = d0" and ia: "\<forall>p \<in> set (elems mu). length p = d1 \<and> (\<forall>r \<in> set p. length r = d2)"
    using v s by (auto simp: valid_arr_def)
  have 1: "elems mu ! i \<in> set (elems mu)" using la b by simp
  then have 2: "elems mu ! i ! j \<in> set (elems mu ! i)" using ia b by simp
  then have 3: "elems mu ! i ! j ! k \<in> set (elems mu ! i ! j)" using ia 1 b by simp
  show ?thesis unfolding idx item_def prod.case using 1 2 3 by auto
qed

lemma read_weights_roundtrip:
  assumes v: "valid_arr mu" and sh: "shape mu = shape_of n" and z: "np_zeros n = Inr zs"
    and f: "\<forall>r \<in> set (concat (concat (elems mu))). float_text_ok fio r"
  shows "read_weights fio zs (map (entry_text fio mu) (grid_indices n)) = (Returned, mu)"
proof -
  note zp = np_zeros_props[OF z]
  have zv: "valid_arr zs" and zsh: "shape zs = shape_of n" using zp by auto
  have "in_shape (shape zs) idx \<and> float_text_ok fio (item mu idx)"
    if "idx \<in> set (grid_indices n)" for idx
  proof -
    have i: "in_shape (shape_of n) idx" using that by (simp add: set_grid_indices)
    then have "item mu idx \<in> set (concat (concat (elems mu)))"
      using item_in_concat[OF v, of idx] sh by simp
    then have "float_text_ok fio (item mu idx)" using f by (rule_tac bspec)
    with i zsh show ?thesis by simp
  qed
  then have "\<forall>idx \<in> set (grid_indices n). in_shape (shape zs) idx \<and> float_text_ok fio (item mu idx)"
    by blast
  from read_weights_grid[OF zv this] obtain a' where
    r: "read_weights fio zs (map (entry_text fio mu) (grid_indices n)) = (Returned, a')"
    and v': "valid_arr a'" and s': "shape a' = shape zs"
    and it: "\<And>q. in_shape (shape zs) q \<Longrightarrow>
                   item a' q = (if q \<in> set (grid_indices n) then item mu q else item zs q)"
    by blast
  have "a' = mu"
  proof (rule arr_ext[OF v' v])
    show "shape a' = shape mu" using s' zsh sh by simp
    fix q assume "in_shape (shape a') q"
    then have q: "in_shape (shape zs) q" using s' by simp
    then have "q \<in> set (grid_indices n)" using zsh by (simp add: set_grid_indices)
    with it[OF q] show "item a' q = item mu q" by simp
  qed
  with r show ?thesis by simp
qed

lemma nl_notin_str_int: "nl \<notin> set (str_int i)"
  by (rule nl_notin_token[OF token_str_int])

lemma entry_text_facts:
  assumes f: "float_text_ok fio (item mu idx)"
  shows "trimmed (entry_text fio mu idx)" "is_digit (hd (entry_text fio mu idx))"
    "nl \<notin> set (entry_text fio mu idx)"
proof -
  obtain i j k where idx: "idx = (i, j, k)" by (cases idx)
  have t: "token (str_float fio (item mu idx))" using f by (simp add: float_text_ok_def)
  have ne: "str_int (int i) \<noteq> []" using token_str_int[of "int i"] by (simp add: token_def)
  have hd: "hd (entry_text fio mu idx) = hd (str_int (int i))"
    using ne by (simp add: entry_text_def idx)
  show d: "is_digit (hd (entry_text fio mu idx))" unfolding hd by (rule hd_str_int_nat)
  have fl: "str_float fio (item mu idx) \<noteq> []" "\<not> is_space (last (str_float fio (item mu idx)))"
    using t by (auto simp: token_def)
  have la: "last (entry_text fio mu idx) = last (str_float fio (item mu idx))"
    using fl by (simp add: entry_text_def idx)
  show "trimmed (entry_text fio mu idx)"
    unfolding trimmed_def la using d is_digit_not_space fl ne by (auto simp: entry_text_def idx)
  show "nl \<notin> set (entry_text fio mu idx)"
    using nl_notin_str_int nl_notin_token[OF t] by (auto simp: entry_text_def idx nl_def)
qed

lemma grid_entries:
  assumes v: "valid_arr mu" and sh: "shape mu = shape_of n" and ne: "grid_indices n \<noteq> []"
    and f: "\<forall>r \<in> set (concat (concat (elems mu))). float_text_ok fio r"
  shows "entries_ok (map (entry_text fio mu) (grid_indices n))"
    "\<forall>e \<in> set (map (entry_text fio mu) (grid_indices n)). nl \<notin> set e"
proof -
  have ok: "float_text_ok fio (item mu idx)" if "idx \<in> set (grid_indices n)" for idx
  proof -
    have "in_shape (shape mu) idx" using that sh by (simp add: set_grid_indices)
    from item_in_concat[OF v this] f show ?thesis by (rule_tac bspec)
  qed
  show "entries_ok (map (entry_text fio mu) (grid_indices n))"
    unfolding entries_ok_def
    using ne entry_text_facts[OF ok] is_digit_not_special by fastforce
  show "\<forall>e \<in> set (map (entry_text fio mu) (grid_indices n)). nl \<notin> set e"
    using entry_text_facts(3)[OF ok] by auto
qed

lemma nl_section_lines:
  assumes "nl \<notin> set key" "\<forall>e \<in> set es. nl \<notin> set e"
  shows "\<forall>l \<in> set (section_lines key es). nl \<notin> set l"
  using assms by (cases es) (auto simp: section_lines_def nl_def)

lemma vec_ok_nl:
  assumes "vec_ok fio v"
  shows "nl \<notin> set (str_float fio (vget v 0))" "nl \<notin> set (str_float fio (vget v 1))"
    "nl \<notin> set (str_float fio (vget v 2))"
  using assms by (cases v; auto simp: vec_ok_def float_text_ok_def dest: nl_notin_token)+

lemma nl_head_lines:
  assumes "vec_ok fio (box_length s)" "vec_ok fio (box_origin s)" "vec_ok fio (rot_angle s)"
  shows "\<forall>l \<in> set (head_lines fio s). nl \<notin> set l"
  using vec_ok_nl[OF assms(1)] vec_ok_nl[OF assms(2)] vec_ok_nl[OF assms(3)]
    nl_notin_str_int
  by (simp add: head_lines_def) (simp add: nl_def)

lemma config_read_written:
  assumes vs: "valid_store s" and fo: "floats_ok fio s"
  shows "config_read (unlines (all_lines fio s)) = Inr (written_config fio s)"
proof -
  obtain n0 n1 n2 where n: "n_control_points s = (n0, n1, n2)" by (cases "n_control_points s")
  have v: "vec_ok fio (box_length s)" "vec_ok fio (box_origin s)" "vec_ok fio (rot_angle s)"
    using fo by (auto simp: floats_ok_def)
  have va: "valid_arr (array_mu_x s)" "valid_arr (array_mu_y s)" "valid_arr (array_mu_z s)"
    and sa: "shape (array_mu_x s) = shape_of (n_control_points s)"
      "shape (array_mu_y s) = shape_of (n_control_points s)"
      "shape (array_mu_z s) = shape_of (n_control_points s)"
    using vs n by (auto simp: valid_store_def shape_of_def)
  have fa: "\<forall>r \<in> set (concat (concat (elems (array_mu_x s)))). float_text_ok fio r"
    "\<forall>r \<in> set (concat (concat (elems (array_mu_y s)))). float_text_ok fio r"
    "\<forall>r \<in> set (concat (concat (elems (array_mu_z s)))). float_text_ok fio r"
    using fo by (auto simp: floats_ok_def)
  note ne = grid_indices_nonempty[OF vs]
  note gx = grid_entries[OF va(1) sa(1) ne fa(1)]
  note gy = grid_entries[OF va(2) sa(2) ne fa(2)]
  note gz = grid_entries[OF va(3) sa(3) ne fa(3)]
  have nlk: "nl \<notin> set ''parameter x''" "nl \<notin> set ''parameter y''" "nl \<notin> set ''parameter z''"
    "nl \<notin> set comment_y" "nl \<notin> set comment_z"
    by (simp_all add: nl_def comment_y_def comment_z_def)
  have nls: "\<forall>l \<in> set (all_lines fio s). nl \<notin> set l"
    using nl_head_lines[OF v] nl_section_lines[OF nlk(1) gx(2)] nl_section_lines[OF nlk(2) gy(2)]
      nl_section_lines[OF nlk(3) gz(2)] nlk(4,5)
    by (auto simp: all_lines_def Let_def)
  have fl: "file_lines (unlines (all_lines fio s)) = all_lines fio s"
    by (rule file_lines_unlines[OF nls])
  have rl: "read_lines parser_init (all_lines fio s) =
         Inr \<lparr>p_sections = [''Box info'' \<mapsto> box_info_dict fio s,
                    ''Parameters weights'' \<mapsto>
                       [''parameter x'' \<mapsto>
                          map (entry_text fio (array_mu_x s)) (grid_indices (n_control_points s)) @ [[]],
                        ''parameter y'' \<mapsto>
                          map (entry_text fio (array_mu_y s)) (grid_indices (n_control_points s)) @ [[]],
                        ''parameter z'' \<mapsto>
                          map (entry_text fio (array_mu_z s)) (grid_indices (n_control_points s))]],
               p_defaults = Map.empty, p_cursect = Sect ''Parameters weights'',
               p_optname = Some ''parameter z'', p_indent = 0, p_error = False\<rparr>"
    unfolding all_lines_def Let_def by (rule full_parse[OF v gx(1) gy(1) gz(1)])
  show ?thesis
    unfolding config_read_def fl rl by (simp add: written_config_def)
qed

lemma box_info_get:
  assumes "box_info_dict fio s k = Some vs" "lower k = k"
  shows "config_get (written_config fio s) ''Box info'' k = Inr (join_value vs)"
  using assms by (simp add: config_get_def written_config_def)

lemma getint_written:
  assumes vs: "valid_store s"
  shows "getint64 (written_config fio s) ''Box info'' ''n control points x'' = Inr (vget (n_control_points s) 0)"
    "getint64 (written_config fio s) ''Box info'' ''n control points y'' = Inr (vget (n_control_points s) 1)"
    "getint64 (written_config fio s) ''Box info'' ''n control points z'' = Inr (vget (n_control_points s) 2)"
proof -
  obtain n0 n1 n2 where n: "n_control_points s = (n0, n1, n2)" by (cases "n_control_points s")
  have r: "1 \<le> n0" "n0 \<le> 2 ^ 62" "1 \<le> n1" "n1 \<le> 2 ^ 62" "1 \<le> n2" "n2 \<le> 2 ^ 62"
    using vs n by (auto simp: valid_store_def)
  have g: "config_get (written_config fio s) ''Box info'' ''n control points x'' = Inr (str_int n0)"
    "config_get (written_config fio s) ''Box info'' ''n control points y'' = Inr (str_int n1)"
    "config_get (written_config fio s) ''Box info'' ''n control points z'' = Inr (str_int n2)"
    using key_facts(1,2,3)
    by (simp_all add: box_info_get box_info_dict_def n join_value_single join_value_blank1
        trimmed_str_int)
  show "getint64 (written_config fio s) ''Box info'' ''n control points x'' = Inr (vget (n_control_points s) 0)"
    "getint64 (written_config fio s) ''Box info'' ''n control points y'' = Inr (vget (n_control_points s) 1)"
    "getint64 (written_config fio s) ''Box info'' ''n control points z'' = Inr (vget (n_control_points s) 2)"
    using r by (simp_all add: getint64_def config_getint_def g py_int_str_int n)
qed

lemma getfloat_value:
  assumes "float_text_ok fio x" and "config_get c sec k = Inr (str_float fio x)"
  shows "config_getfloat fio c sec k = Inr x"
  using assms by (simp add: config_getfloat_def float_text_ok_def)

lemma vec_ok_each:
  assumes "vec_ok fio v"
  shows "float_text_ok fio (vget v 0)" "float_text_ok fio (vget v 1)" "float_text_ok fio (vget v 2)"
  using assms by (cases v; simp add: vec_ok_def)+

lemma getfloat_written:
  assumes fo: "floats_ok fio s"
  shows "config_getfloat fio (written_config fio s) ''Box info'' ''box length x'' = Inr (vget (box_length s) 0)"
    "config_getfloat fio (written_config fio s) ''Box info'' ''box length y'' = Inr (vget (box_length s) 1)"
    "config_getfloat fio (written_config fio s) ''Box info'' ''box length z'' = Inr (vget (box_length s) 2)"
    "config_getfloat fio (written_config fio s) ''Box info'' ''box origin x'' = Inr (vget (box_origin s) 0)"
    "config_getfloat fio (written_config fio s) ''Box info'' ''box origin y'' = Inr (vget (box_origin s) 1)"
    "config_getfloat fio (written_config fio s) ''Box info'' ''box origin z'' = Inr (vget (box_origin s) 2)"
    "config_getfloat fio (written_config fio s) ''Box info'' ''rotation angle x'' = Inr (vget (rot_angle s) 0)"
    "config_getfloat fio (written_config fio s) ''Box info'' ''rotation angle y'' = Inr (vget (rot_angle s) 1)"
    "config_getfloat fio (written_config fio s) ''Box info'' ''rotation angle z'' = Inr (vget (rot_angle s) 2)"
proof -
  have v: "vec_ok fio (box_length s)" "vec_ok fio (box_origin s)" "vec_ok fio (rot_angle s)"
    using fo by (auto simp: floats_ok_def)
  note t = vec_ok_trimmed[OF v(1)] vec_ok_trimmed[OF v(2)] vec_ok_trimmed[OF v(3)]
  note e = vec_ok_each[OF v(1)] vec_ok_each[OF v(2)] vec_ok_each[OF v(3)]
  show "config_getfloat fio (written_config fio s) ''Box info'' ''box length x'' = Inr (vget (box_length s) 0)"
    by (rule getfloat_value[OF e(1)])
       (simp add: key_facts box_info_get box_info_dict_def join_value_single t)
  show "config_getfloat fio (written_config fio s) ''Box info'' ''box length y'' = Inr (vget (box_length s) 1)"
    by (rule getfloat_value[OF e(2)])
       (simp add: key_facts box_info_get box_info_dict_def join_value_single t)
  show "config_getfloat fio (written_config fio s) ''Box info'' ''box length z'' = Inr (vget (box_length s) 2)"
    by (rule getfloat_value[OF e(3)])
       (simp add: key_facts box_info_get box_info_dict_def join_value_blank1 t)
  show "config_getfloat fio (written_config fio s) ''Box info'' ''box origin x'' = Inr (vget (box_origin s) 0)"
    by (rule getfloat_value[OF e(4)])
       (simp add: key_facts box_info_get box_info_dict_def join_value_single t)
  show "config_getfloat fio (written_config fio s) ''Box info'' ''box origin y'' = Inr (vget (box_origin s) 1)"
    by (rule getfloat_value[OF e(5)])
       (simp add: key_facts box_info_get box_info_dict_def join_value_single t)
  show "config_getfloat fio (written_config fio s) ''Box info'' ''box origin z'' = Inr (vget (box_origin s) 2)"
    by (rule getfloat_value[OF e(6)])
       (simp add: key_facts box_info_get box_info_dict_def join_value_blank1 t)
  show "config_getfloat fio (written_config fio s) ''Box info'' ''rotation angle x'' = Inr (vget (rot_angle s) 0)"
    by (rule getfloat_value[OF e(7)])
       (simp add: key_facts box_info_get box_info_dict_def join_value_single t)
  show "config_getfloat fio (written_config fio s) ''Box info'' ''rotation angle y'' = Inr (vget (rot_angle s) 1)"
    by (rule getfloat_value[OF e(8)])
       (simp add: key_facts box_info_get box_info_dict_def join_value_single t)
  show "config_getfloat fio (written_config fio s) ''Box info'' ''rotation angle z'' = Inr (vget (rot_angle s) 2)"
    by (rule getfloat_value[OF e(9)])
       (simp add: key_facts box_info_get box_info_dict_def join_value_blank2 t)
qed

lemma weights_get:
  assumes vs: "valid_store s" and fo: "floats_ok fio s"
  shows "config_get (written_config fio s) ''Parameters weights'' ''parameter x'' =
           Inr (join_on nl (map (entry_text fio (array_mu_x s)) (grid_indices (n_control_points s))))"
    "config_get (written_config fio s) ''Parameters weights'' ''parameter y'' =
           Inr (join_on nl (map (entry_text fio (array_mu_y s)) (grid_indices (n_control_points s))))"
    "config_get (written_config fio s) ''Parameters weights'' ''parameter z'' =
           Inr (join_on nl (map (entry_text fio (array_mu_z s)) (grid_indices (n_control_points s))))"
proof -
  obtain n0 n1 n2 where n: "n_control_points s = (n0, n1, n2)" by (cases "n_control_points s")
  have va: "valid_arr (array_mu_x s)" "valid_arr (array_mu_y s)" "valid_arr (array_mu_z s)"
    and sa: "shape (array_mu_x s) = shape_of (n_control_points s)"
      "shape (array_mu_y s) = shape_of (n_control_points s)"
      "shape (array_mu_z s) = shape_of (n_control_points s)"
    using vs n by (auto simp: valid_store_def shape_of_def)
  have fa: "\<forall>r \<in> set (concat (concat (elems (array_mu_x s)))). float_text_ok fio r"
    "\<forall>r \<in> set (concat (concat (elems (array_mu_y s)))). float_text_ok fio r"
    "\<forall>r \<in> set (concat (concat (elems (array_mu_z s)))). float_text_ok fio r"
    using fo by (auto simp: floats_ok_def)
  note ne = grid_indices_nonempty[OF vs]
  have j: "join_value es = join_on nl es" "join_value (es @ [[]]) = join_on nl es"
    if "entries_ok es" for es
    using join_value_lines[of es] that by (auto simp: entries_ok_def)
  note jx = j[OF grid_entries(1)[OF va(1) sa(1) ne fa(1)]]
  note jy = j[OF grid_entries(1)[OF va(2) sa(2) ne fa(2)]]
  note jz = j[OF grid_entries(1)[OF va(3) sa(3) ne fa(3)]]
  show "config_get (written_config fio s) ''Parameters weights'' ''parameter x'' =
           Inr (join_on nl (map (entry_text fio (array_mu_x s)) (grid_indices (n_control_points s))))"
    using key_facts(13) by (simp add: config_get_def written_config_def jx)
  show "config_get (written_config fio s) ''Parameters weights'' ''parameter y'' =
           Inr (join_on nl (map (entry_text fio (array_mu_y s)) (grid_indices (n_control_points s))))"
    using key_facts(14) by (simp add: config_get_def written_config_def jy)
  show "config_get (written_config fio s) ''Parameters weights'' ''parameter z'' =
           Inr (join_on nl (map (entry_text fio (array_mu_z s)) (grid_indices (n_control_points s))))"
    using key_facts(15) by (simp add: config_get_def written_config_def jz)
qed

lemma vget_triple: "(vget n 0, vget n 1, vget n 2) = n"
  by (cases n) simp

lemma vset_get_all: "vset (vset (vset m 0 (vget n 0)) 1 (vget n 1)) 2 (vget n 2) = n"
  by (cases n; cases m) simp

lemma read_text_written:
  assumes vs: "valid_store s" and fo: "floats_ok fio s"
  shows "read_text fio s0 (unlines (all_lines fio s)) =
         (Returned, s\<lparr>conversion_unit := conversion_unit s0\<rparr>)"
proof -
  obtain n0 n1 n2 where n: "n_control_points s = (n0, n1, n2)" by (cases "n_control_points s")
  have r: "0 \<le> n0" "0 \<le> n1" "0 \<le> n2" using vs n by (auto simp: valid_store_def)
  have va: "valid_arr (array_mu_x s)" "valid_arr (array_mu_y s)" "valid_arr (array_mu_z s)"
    and sa: "shape (array_mu_x s) = shape_of (n_control_points s)"
      "shape (array_mu_y s) = shape_of (n_control_points s)"
      "shape (array_mu_z s) = shape_of (n_control_points s)"
    using vs n by (auto simp: valid_store_def shape_of_def)
  have fa: "\<forall>r \<in> set (concat (concat (elems (array_mu_x s)))). float_text_ok fio r"
    "\<forall>r \<in> set (concat (concat (elems (array_mu_y s)))). float_text_ok fio r"
    "\<forall>r \<in> set (concat (concat (elems (array_mu_z s)))). float_text_ok fio r"
    using fo by (auto simp: floats_ok_def)
  note ne = grid_indices_nonempty[OF vs]
  obtain zs where z: "np_zeros (n_control_points s) = Inr zs"
    using r by (simp add: np_zeros_def n)
  let ?ex = "map (entry_text fio (array_mu_x s)) (grid_indices (n_control_points s))"
  let ?ey = "map (entry_text fio (array_mu_y s)) (grid_indices (n_control_points s))"
  let ?ez = "map (entry_text fio (array_mu_z s)) (grid_indices (n_control_points s))"
  have sj: "split_on nl (join_on nl ?ex) = ?ex" "split_on nl (join_on nl ?ey) = ?ey"
    "split_on nl (join_on nl ?ez) = ?ez"
    using grid_entries(2)[OF va(1) sa(1) ne fa(1)] grid_entries(2)[OF va(2) sa(2) ne fa(2)]
      grid_entries(2)[OF va(3) sa(3) ne fa(3)] ne
    by (simp_all add: split_on_join)
  have rw: "read_weights fio zs ?ex = (Returned, array_mu_x s)"
    "read_weights fio zs ?ey = (Returned, array_mu_y s)"
    "read_weights fio zs ?ez = (Returned, array_mu_z s)"
    using read_weights_roundtrip[OF va(1) sa(1) z fa(1)]
      read_weights_roundtrip[OF va(2) sa(2) z fa(2)]
      read_weights_roundtrip[OF va(3) sa(3) z fa(3)] by simp_all
  show ?thesis
    unfolding read_text_def Let_def config_read_written[OF vs fo] attempt_def sum.case
      getint_written[OF vs] getfloat_written[OF fo] weights_get[OF vs fo]
    by (simp add: vset_get_all z read_weights_into_def array_mu_def sj rw)
qed

lemma example_io_ok:
  "float_text_ok example_io 0" "float_text_ok example_io 1"
  "float_text_ok example_io (1 / 2)" "float_text_ok example_io (- 2)"
  by (simp_all add: float_text_ok_def example_io_def token_def is_space_def strip_def lstrip_def
      rstrip_def)

lemma default_store_valid: "valid_store default_store"
  by (simp add: valid_store_def default_store_def valid_arr_def)

lemma default_store_floats: "floats_ok example_io default_store"
  using example_io_ok by (simp add: floats_ok_def default_store_def vec_ok_def)

lemma lattice_2x1x2_valid: "valid_store lattice_2x1x2"
  by (simp add: valid_store_def lattice_2x1x2_def valid_arr_def)

lemma lattice_2x1x2_floats: "floats_ok example_io lattice_2x1x2"
  using example_io_ok by (simp add: floats_ok_def lattice_2x1x2_def vec_ok_def)


lemma write_then_read:
  assumes vs: "valid_store s" and fo: "floats_ok fio s"
  shows "\<exists>fs'. write_parameters fio fs s filename = (Returned, fs') \<and>
           fs' filename = Some (unlines (all_lines fio s)) \<and>
           read_parameters fio fs' s0 filename =
             (Returned, s\<lparr>conversion_unit := conversion_unit s0\<rparr>, fs')"
proof -
  have w: "write_parameters fio fs s filename =
             (Returned, fs(filename \<mapsto> unlines (all_lines fio s)))"
    by (simp add: write_parameters_def output_text_lines[OF vs])
  have "read_parameters fio (fs(filename \<mapsto> unlines (all_lines fio s))) s0 filename =
          (Returned, s\<lparr>conversion_unit := conversion_unit s0\<rparr>,
           fs(filename \<mapsto> unlines (all_lines fio s)))"
    by (simp add: read_parameters_def read_text_written[OF vs fo])
  with w show ?thesis by simp
qed

text \<open>
  Claim C3.  For a store that satisfies the invariant of the data model and whose
  floats \<open>str\<close> and \<open>float\<close> take to text and back, \<open>write_parameters\<close> followed by
  \<open>read_parameters\<close> of the same file, into any object, gives the resolution, the box
  length, the box origin, the rotation angles and the three weight arrays of the
  store that was written.
\<close>

theorem write_read_round_trip:
  assumes "valid_store s" and "floats_ok fio s"
  shows "\<exists>fs' s'. write_parameters fio fs s filename = (Returned, fs') \<and>
           read_parameters fio fs' s0 filename = (Returned, s', fs') \<and>
           n_control_points s' = n_control_points s \<and> box_length s' = box_length s \<and>
           box_origin s' = box_origin s \<and> rot_angle s' = rot_angle s \<and>
           array_mu_x s' = array_mu_x s \<and> array_mu_y s' = array_mu_y s \<and>
           array_mu_z s' = array_mu_z s"
proof -
  from write_then_read[OF assms, of fs filename s0] obtain fs' where
    "write_parameters fio fs s filename = (Returned, fs')"
    "read_parameters fio fs' s0 filename =
             (Returned, s\<lparr>conversion_unit := conversion_unit s0\<rparr>, fs')"
    by blast
  then show ?thesis by auto
qed

theorem write_read_round_trip_witness:
  "valid_store lattice_2x1x2 \<and> floats_ok example_io lattice_2x1x2 \<and>
   (\<exists>fs' s'. write_parameters example_io Map.empty lattice_2x1x2 ''parameters.prm'' = (Returned, fs') \<and>
      read_parameters example_io fs' default_store ''parameters.prm'' = (Returned, s', fs') \<and>
      n_control_points s' = (2, 1, 2) \<and> box_length s' = (1, 1 / 2, 1) \<and>
      array_mu_y s' = \<lparr>shape = (2, 1, 2), elems = [[[1, - 2]], [[0, 0]]]\<rparr>)"
proof -
  from write_read_round_trip[OF lattice_2x1x2_valid lattice_2x1x2_floats,
      of Map.empty "''parameters.prm''" default_store]
  obtain fs' s' where
    "write_parameters example_io Map.empty lattice_2x1x2 ''parameters.prm'' = (Returned, fs')"
    "read_parameters example_io fs' default_store ''parameters.prm'' = (Returned, s', fs')"
    "n_control_points s' = n_control_points lattice_2x1x2"
    "box_length s' = box_length lattice_2x1x2"
    "array_mu_y s' = array_mu_y lattice_2x1x2"
    by blast
  then show ?thesis
    using lattice_2x1x2_valid lattice_2x1x2_floats by (auto simp: lattice_2x1x2_def)
qed





section \<open>The points of the lattice\<close>

lemma rotation_zero: "rot_angle s = (0, 0, 0) \<Longrightarrow> rotation_matrix s = identity3"
  by (simp add: rotation_matrix_def radians_def angles2matrix_def rot_x_def rot_y_def rot_z_def
      mat_mul_def transpose3_def dot3_def identity3_def)

lemma mat_vec_identity: "mat_vec identity3 p = p"
  by (cases p) (simp add: mat_vec_def identity3_def dot3_def)

lemma vadd_zero: "vadd p (0, 0, 0) = p"
  by (cases p) (simp add: vadd_def)

lemma linspace_2: "np_linspace 1 2 = Inr [0, 1]"
  by (simp add: np_linspace_def Let_def upt_conv_Cons numeral_2_eq_2)

lemma corners:
  assumes "n_control_points s = (2, 2, 2)" "box_length s = (1, 1, 1)"
    "box_origin s = (0, 0, 0)" "rot_angle s = (0, 0, 0)"
  shows "save_points s False = Inr unit_cube_corners"
  using assms
  by (simp add: save_points_def linspace_2 np_meshgrid_def np_ravel_def np_columns_def Let_def
      rotation_zero mat_vec_identity vadd_zero unit_cube_corners_def)

lemma map_grid_indices:
  "map h (grid_indices (n0, n1, n2)) =
     concat (map (\<lambda>i. concat (map (\<lambda>j. map (\<lambda>k. h (i, j, k)) [0 ..< nat n2]) [0 ..< nat n1]))
               [0 ..< nat n0])"
  by (simp add: grid_indices_def map_concat comp_def)

lemma concat_concat_map: "concat (concat (map f xs)) = concat (map (\<lambda>x. concat (f x)) xs)"
  by (induction xs) auto

lemma map_is_nth: "map f xs = map (\<lambda>i. f (xs ! i)) [0 ..< length xs]"
  by (rule nth_equalityI) auto

lemma ravel_meshgrid:
  assumes "length x = nat n0" "length y = nat n1" "length z = nat n2"
    and "np_meshgrid y x z = (ly, lx, lz)"
  shows "np_ravel lx = map (\<lambda>(i, j, k). x ! i) (grid_indices (n0, n1, n2))"
    "np_ravel ly = map (\<lambda>(i, j, k). y ! j) (grid_indices (n0, n1, n2))"
    "np_ravel lz = map (\<lambda>(i, j, k). z ! k) (grid_indices (n0, n1, n2))"
proof -
  have e: "elems lx = map (\<lambda>bi. map (\<lambda>aj. map (\<lambda>ck. bi) z) y) x"
    "elems ly = map (\<lambda>bi. map (\<lambda>aj. map (\<lambda>ck. aj) z) y) x"
    "elems lz = map (\<lambda>bi. map (\<lambda>aj. map (\<lambda>ck. ck) z) y) x"
    using assms(4) by (auto simp: np_meshgrid_def Let_def)
  have g: "\<And>f. map (\<lambda>bi. map (\<lambda>aj. map (\<lambda>ck. f bi aj ck) z) y) x
      = map (\<lambda>i. map (\<lambda>j. map (\<lambda>k. f (x ! i) (y ! j) (z ! k)) [0 ..< nat n2]) [0 ..< nat n1])
          [0 ..< nat n0]"
    using assms(1,2,3)
    by (subst map_is_nth[of _ x], subst map_is_nth[of _ y], subst map_is_nth[of _ z]) simp
  show "np_ravel lx = map (\<lambda>(i, j, k). x ! i) (grid_indices (n0, n1, n2))"
    unfolding np_ravel_def e g[of "\<lambda>a b c. a"] map_grid_indices
    by (simp add: concat_concat_map)
  show "np_ravel ly = map (\<lambda>(i, j, k). y ! j) (grid_indices (n0, n1, n2))"
    unfolding np_ravel_def e g[of "\<lambda>a b c. b"] map_grid_indices
    by (simp add: concat_concat_map)
  show "np_ravel lz = map (\<lambda>(i, j, k). z ! k) (grid_indices (n0, n1, n2))"
    unfolding np_ravel_def e g[of "\<lambda>a b c. c"] map_grid_indices
    by (simp add: concat_concat_map)
qed

lemma zip3_map: "zip (map f L) (zip (map g L) (map h L)) = map (\<lambda>i. (f i, g i, h i)) L"
  by (induction L) auto

lemma linspace_props:
  assumes "0 \<le> num"
  shows "\<exists>xs. np_linspace stop num = Inr xs \<and> length xs = nat num \<and>
           (1 \<le> num \<longrightarrow> xs ! 0 = 0) \<and> (2 \<le> num \<longrightarrow> xs ! (nat num - 1) = stop) \<and>
           (2 \<le> num \<longrightarrow> (\<forall>i < nat num. xs ! i = real i * stop / real (nat num - 1)))"
proof -
  let ?n = "nat num"
  consider "?n = 0" | "?n = 1" | "2 \<le> ?n" by linarith
  then show ?thesis
  proof cases
    case 1 then show ?thesis using assms by (simp add: np_linspace_def)
  next
    case 2
    then have "num = 1" using assms by linarith
    then show ?thesis by (simp add: np_linspace_def)
  next
    case 3
    let ?xs = "(map (\<lambda>i. real i * (stop / real (?n - 1))) [0 ..< ?n])[?n - 1 := stop]"
    have l: "np_linspace stop num = Inr ?xs" using 3 assms by (simp add: np_linspace_def Let_def)
    have a: "?xs ! i = real i * stop / real (?n - 1)" if "i < ?n" for i
    proof (cases "i = ?n - 1")
      case True
      then show ?thesis using 3 that by simp
    next
      case False
      then show ?thesis using that by simp
    qed
    have "?xs ! 0 = 0" using a[of 0] 3 by simp
    moreover have "?xs ! (?n - 1) = stop" using 3 by simp
    ultimately show ?thesis using l a by auto
  qed
qed

lemma save_points_grid:
  assumes n: "n_control_points s = (n0, n1, n2)" and nn: "0 \<le> n0" "0 \<le> n1" "0 \<le> n2"
    and bl: "box_length s = (l0, l1, l2)"
  shows "\<exists>xs ys zs.
           np_linspace l0 n0 = Inr xs \<and> np_linspace l1 n1 = Inr ys \<and> np_linspace l2 n2 = Inr zs \<and>
           length xs = nat n0 \<and> length ys = nat n1 \<and> length zs = nat n2 \<and>
           (1 \<le> n0 \<longrightarrow> xs ! 0 = 0) \<and> (2 \<le> n0 \<longrightarrow> xs ! (nat n0 - 1) = l0) \<and>
           (1 \<le> n1 \<longrightarrow> ys ! 0 = 0) \<and> (2 \<le> n1 \<longrightarrow> ys ! (nat n1 - 1) = l1) \<and>
           (1 \<le> n2 \<longrightarrow> zs ! 0 = 0) \<and> (2 \<le> n2 \<longrightarrow> zs ! (nat n2 - 1) = l2) \<and>
           save_points s False =
             Inr (map (\<lambda>(i, j, k). vadd (mat_vec (rotation_matrix s) (xs ! i, ys ! j, zs ! k))
                                      (box_origin s))
                    (grid_indices (n0, n1, n2)))"
proof -
  from linspace_props[OF nn(1), of l0] obtain xs where
    x: "np_linspace l0 n0 = Inr xs" "length xs = nat n0"
      "1 \<le> n0 \<longrightarrow> xs ! 0 = 0" "2 \<le> n0 \<longrightarrow> xs ! (nat n0 - 1) = l0" by blast
  from linspace_props[OF nn(2), of l1] obtain ys where
    y: "np_linspace l1 n1 = Inr ys" "length ys = nat n1"
      "1 \<le> n1 \<longrightarrow> ys ! 0 = 0" "2 \<le> n1 \<longrightarrow> ys ! (nat n1 - 1) = l1" by blast
  from linspace_props[OF nn(3), of l2] obtain zs where
    z: "np_linspace l2 n2 = Inr zs" "length zs = nat n2"
      "1 \<le> n2 \<longrightarrow> zs ! 0 = 0" "2 \<le> n2 \<longrightarrow> zs ! (nat n2 - 1) = l2" by blast
  obtain ly lx lz where m: "np_meshgrid ys xs zs = (ly, lx, lz)"
    by (cases "np_meshgrid ys xs zs") auto
  note r = ravel_meshgrid[OF x(2) y(2) z(2) m]
  have c: "np_columns (np_ravel lx) (np_ravel ly) (np_ravel lz) =
      Inr (map (\<lambda>idx. ((\<lambda>(i, j, k). xs ! i) idx, (\<lambda>(i, j, k). ys ! j) idx, (\<lambda>(i, j, k). zs ! k) idx))
             (grid_indices (n0, n1, n2)))"
    unfolding r np_columns_def by (simp add: zip3_map)
  have "save_points s False =
             Inr (map (\<lambda>(i, j, k). vadd (mat_vec (rotation_matrix s) (xs ! i, ys ! j, zs ! k))
                                      (box_origin s))
                    (grid_indices (n0, n1, n2)))"
    unfolding save_points_def n bl
    by (simp add: x(1) y(1) z(1) m c comp_def split_def)
  with x y z show ?thesis by blast
qed

text \<open>
  Claim C7.  For a store with the resolution \<open>(2, 2, 2)\<close>, the box length
  \<open>(1, 1, 1)\<close>, zero origin and zero rotation, \<open>save_points\<close> without the
  displacements hands the eight corners of the unit cube to the writer, in the order
  of the grid, and does so as well for the store read back from the file written
  from it.  For every store with a resolution that is not negative the points are
  the rotated and translated points of the grid of the three \<open>np.linspace\<close>
  samples, which start at 0 and end at the box length of their axis.
\<close>

theorem undisplaced_lattice_points:
  "(n_control_points s = (2, 2, 2) \<and> box_length s = (1, 1, 1) \<and> box_origin s = (0, 0, 0) \<and>
    rot_angle s = (0, 0, 0) \<longrightarrow>
      save_points s False = Inr unit_cube_corners \<and>
      (valid_store s \<and> floats_ok fio s \<longrightarrow>
         (\<exists>fs' s'. write_parameters fio fs s filename = (Returned, fs') \<and>
                   read_parameters fio fs' s0 filename = (Returned, s', fs') \<and>
                   save_points s' False = Inr unit_cube_corners))) \<and>
   (n_control_points s = (n0, n1, n2) \<and> 0 \<le> n0 \<and> 0 \<le> n1 \<and> 0 \<le> n2 \<and>
    box_length s = (l0, l1, l2) \<longrightarrow>
      (\<exists>xs ys zs.
           np_linspace l0 n0 = Inr xs \<and> np_linspace l1 n1 = Inr ys \<and> np_linspace l2 n2 = Inr zs \<and>
           length xs = nat n0 \<and> length ys = nat n1 \<and> length zs = nat n2 \<and>
           (1 \<le> n0 \<longrightarrow> xs ! 0 = 0) \<and> (2 \<le> n0 \<longrightarrow> xs ! (nat n0 - 1) = l0) \<and>
           (1 \<le> n1 \<longrightarrow> ys ! 0 = 0) \<and> (2 \<le> n1 \<longrightarrow> ys ! (nat n1 - 1) = l1) \<and>
           (1 \<le> n2 \<longrightarrow> zs ! 0 = 0) \<and> (2 \<le> n2 \<longrightarrow> zs ! (nat n2 - 1) = l2) \<and>
           save_points s False =
             Inr (map (\<lambda>(i, j, k). vadd (mat_vec (rotation_matrix s) (xs ! i, ys ! j, zs ! k))
                                      (box_origin s))
                    (grid_indices (n0, n1, n2)))))"
proof (intro conjI impI)
  assume a: "n_control_points s = (2, 2, 2) \<and> box_length s = (1, 1, 1) \<and>
    box_origin s = (0, 0, 0) \<and> rot_angle s = (0, 0, 0)"
  then show "save_points s False = Inr unit_cube_corners" by (simp add: corners)
  assume v: "valid_store s \<and> floats_ok fio s"
  from write_then_read[of s fio fs filename s0] v obtain fs' where
    w: "write_parameters fio fs s filename = (Returned, fs')"
    and r: "read_parameters fio fs' s0 filename =
             (Returned, s\<lparr>conversion_unit := conversion_unit s0\<rparr>, fs')"
    by blast
  have "save_points (s\<lparr>conversion_unit := conversion_unit s0\<rparr>) False = Inr unit_cube_corners"
    using a by (intro corners) simp_all
  with w r show "\<exists>fs' s'. write_parameters fio fs s filename = (Returned, fs') \<and>
                   read_parameters fio fs' s0 filename = (Returned, s', fs') \<and>
                   save_points s' False = Inr unit_cube_corners"
    by blast
next
  assume "n_control_points s = (n0, n1, n2) \<and> 0 \<le> n0 \<and> 0 \<le> n1 \<and> 0 \<le> n2 \<and>
    box_length s = (l0, l1, l2)"
  then show "\<exists>xs ys zs.
           np_linspace l0 n0 = Inr xs \<and> np_linspace l1 n1 = Inr ys \<and> np_linspace l2 n2 = Inr zs \<and>
           length xs = nat n0 \<and> length ys = nat n1 \<and> length zs = nat n2 \<and>
           (1 \<le> n0 \<longrightarrow> xs ! 0 = 0) \<and> (2 \<le> n0 \<longrightarrow> xs ! (nat n0 - 1) = l0) \<and>
           (1 \<le> n1 \<longrightarrow> ys ! 0 = 0) \<and> (2 \<le> n1 \<longrightarrow> ys ! (nat n1 - 1) = l1) \<and>
           (1 \<le> n2 \<longrightarrow> zs ! 0 = 0) \<and> (2 \<le> n2 \<longrightarrow> zs ! (nat n2 - 1) = l2) \<and>
           save_points s False =
             Inr (map (\<lambda>(i, j, k). vadd (mat_vec (rotation_matrix s) (xs ! i, ys ! j, zs ! k))
                                      (box_origin s))
                    (grid_indices (n0, n1, n2)))"
    using save_points_grid[of s n0 n1 n2 l0 l1 l2] by blast
qed

theorem undisplaced_lattice_points_witness:
  "save_points default_store False = Inr unit_cube_corners \<and>
   (\<exists>fs' s'. write_parameters example_io Map.empty default_store ''parameters.prm'' = (Returned, fs') \<and>
             read_parameters example_io fs' lattice_2x1x2 ''parameters.prm'' = (Returned, s', fs') \<and>
             save_points s' False = Inr unit_cube_corners)"
proof -
  have a: "n_control_points default_store = (2, 2, 2) \<and> box_length default_store = (1, 1, 1) \<and>
    box_origin default_store = (0, 0, 0) \<and> rot_angle default_store = (0, 0, 0)"
    by (simp add: default_store_def)
  have v: "valid_store default_store \<and> floats_ok example_io default_store"
    using default_store_valid default_store_floats by simp
  from undisplaced_lattice_points[of default_store example_io Map.empty "''parameters.prm''"
      lattice_2x1x2 2 2 2 1 1 1] a v
  show ?thesis by blast
qed

end
